theory Spec2Isabelle
  imports
    Complex_Main
    "HOL-Library.Sublist"
    "HOL-Library.Multiset"
    "HOL-Library.Char_ord"
    "HOL-Library.List_Lexorder"
begin

section \<open>The CSV processor: condition parsing, filtering, aggregation, ordering\<close>

text \<open>
  The repository holds two variants of the same four operations:
  \<^item> \<^verbatim>\<open>csv_processor/core.py\<close>, whose reader turns every cell that parses as a number
    into a float when the file is loaded, and whose operations tolerate rows without the
    column;
  \<^item> \<^verbatim>\<open>csv_processor/main.py\<close>, whose rows keep the raw text of every cell and whose
    operations look the column up with \<^verbatim>\<open>row[column]\<close>.
  Definitions prefixed \<open>core_\<close> embed the first file, definitions prefixed \<open>main_\<close> the
  second; \<open>parse_condition\<close> is the same text in both files and is embedded once.
\<close>

subsection \<open>Errors\<close>

text \<open>
  Every \<^verbatim>\<open>raise\<close> of the source is a value. The source raises \<^verbatim>\<open>ValueError\<close> with a
  message in most places; the constructors are named after the kind of failure the
  message describes. \<open>KeyError\<close>, \<open>ZeroDivisionError\<close>, \<open>IndexError\<close> and
  \<open>EmptySequence\<close> (the \<^verbatim>\<open>ValueError\<close> of \<^verbatim>\<open>min([])\<close> and \<^verbatim>\<open>max([])\<close>) are raised by
  Python itself; \<open>UnpackError\<close> is the \<^verbatim>\<open>ValueError\<close> of a tuple assignment whose right
  side has the wrong number of elements, \<open>FloatValueError\<close> the \<^verbatim>\<open>ValueError\<close> of
  \<^verbatim>\<open>float(s)\<close> on a string that is not a number, \<open>TypeError\<close> the failure of \<^verbatim>\<open><\<close>
  between a number and a string, and \<open>UnboundLocalError\<close> the read of a local variable
  that no branch has assigned.
\<close>

datatype error =
    MalformedCondition
  | MalformedSpec
  | UnknownOperation
  | UnknownDirection
  | NonNumericColumn
  | UnsupportedOperator
  | KeyError
  | ZeroDivisionError
  | EmptySequence
  | IndexError
  | UnpackError
  | FloatValueError
  | TypeError
  | UnboundLocalError

subsection \<open>Python's string operations\<close>

text \<open>
  A Python string is modelled as a \<open>string\<close> whose characters are the code points below
  256. Strings are compared lexicographically by code point, which is the order of
  \<open>HOL-Library.List_Lexorder\<close> over \<open>HOL-Library.Char_ord\<close>.
\<close>

text \<open>\<^verbatim>\<open>sub in s\<close>\<close>

fun contains :: "string \<Rightarrow> string \<Rightarrow> bool" where
  "contains sub [] = (sub = [])"
| "contains sub (c # cs) = (prefix sub (c # cs) \<or> contains sub cs)"

text \<open>
  The leftmost occurrence of a separator: the text before it and the text after it.
\<close>

fun find_first :: "string \<Rightarrow> string \<Rightarrow> (string \<times> string) option" where
  "find_first sep [] = (if sep = [] then Some ([], []) else None)"
| "find_first sep (c # cs) =
     (if prefix sep (c # cs) then Some ([], drop (length sep) (c # cs))
      else map_option (\<lambda>(l, r). (c # l, r)) (find_first sep cs))"

text \<open>
  \<^verbatim>\<open>s.split(sep, maxsplit=1)\<close> for a separator that is not empty (the source only
  splits at the five operators and at \<^verbatim>\<open>'='\<close>): one piece when the separator does not
  occur, otherwise the two pieces around its leftmost occurrence.
\<close>

definition split_once :: "string \<Rightarrow> string \<Rightarrow> string list" where
  "split_once sep s = (case find_first sep s of None \<Rightarrow> [s] | Some (l, r) \<Rightarrow> [l, r])"

text \<open>
  The characters \<^verbatim>\<open>str.strip()\<close> removes, among the code points below 256: those for
  which \<^verbatim>\<open>str.isspace()\<close> holds.
\<close>

definition isspace :: "char \<Rightarrow> bool" where
  "isspace c =
     (let n = (of_char c :: nat)
      in (9 \<le> n \<and> n \<le> 13) \<or> (28 \<le> n \<and> n \<le> 32) \<or> n = 133 \<or> n = 160)"

definition strip :: "string \<Rightarrow> string" where
  "strip s = rev (dropWhile isspace (rev (dropWhile isspace s)))"

subsection \<open>The condition parser\<close>

text \<open>
  \<^verbatim>\<open>
  def parse_condition(condition):
      operators = ['>=', '<=', '=', '>', '<']
      for op in operators:
          if op in condition:
              column, value = condition.split(op, maxsplit=1)
              return column.strip(), op, value.strip()
      raise ValueError(...)
  \<close>
\<close>

definition operators :: "string list" where
  "operators = [''>='', ''<='', ''='', ''>'', ''<'']"

fun parse_with :: "string list \<Rightarrow> string \<Rightarrow> error + (string \<times> string \<times> string)" where
  "parse_with [] condition = Inl MalformedCondition"
| "parse_with (op # ops) condition =
     (if contains op condition
      then (case split_once op condition of
              [column, val] \<Rightarrow> Inr (strip column, op, strip val)
            | _ \<Rightarrow> Inl UnpackError)
      else parse_with ops condition)"

definition parse_condition :: "string \<Rightarrow> error + (string \<times> string \<times> string)" where
  "parse_condition condition = parse_with operators condition"

subsection \<open>Values, rows and the builtins taken as parameters\<close>

text \<open>
  A Python float is either the real number it denotes or not-a-number, which
  \<^verbatim>\<open>float('nan')\<close> returns. Comparison and negation of floats are exact: on numbers they
  are the operations of \<open>real\<close>, and every comparison with not-a-number is false. The
  infinities have no counterpart in the model, and \<^verbatim>\<open>+\<close> and \<^verbatim>\<open>/\<close> are exact here where
  Python rounds.
\<close>

datatype pyfloat = is_Fin: Fin (fin_of: real) | NaN

text \<open>\<^verbatim>\<open>a < b\<close>, \<^verbatim>\<open>a <= b\<close>, \<^verbatim>\<open>a == b\<close>, \<^verbatim>\<open>a > b\<close> and \<^verbatim>\<open>a >= b\<close> on floats\<close>

fun flt_lt :: "pyfloat \<Rightarrow> pyfloat \<Rightarrow> bool" where
  "flt_lt (Fin a) (Fin b) = (a < b)"
| "flt_lt _ _ = False"

fun flt_le :: "pyfloat \<Rightarrow> pyfloat \<Rightarrow> bool" where
  "flt_le (Fin a) (Fin b) = (a \<le> b)"
| "flt_le _ _ = False"

fun flt_eq :: "pyfloat \<Rightarrow> pyfloat \<Rightarrow> bool" where
  "flt_eq (Fin a) (Fin b) = (a = b)"
| "flt_eq _ _ = False"

definition flt_gt :: "pyfloat \<Rightarrow> pyfloat \<Rightarrow> bool" where
  "flt_gt a b = flt_lt b a"

definition flt_ge :: "pyfloat \<Rightarrow> pyfloat \<Rightarrow> bool" where
  "flt_ge a b = flt_le b a"

text \<open>\<^verbatim>\<open>-a\<close>, \<^verbatim>\<open>a + b\<close> and \<^verbatim>\<open>a / n\<close> for the length \<open>n\<close> of a list that is not empty\<close>

fun flt_neg :: "pyfloat \<Rightarrow> pyfloat" where
  "flt_neg (Fin a) = Fin (- a)"
| "flt_neg NaN = NaN"

fun flt_add :: "pyfloat \<Rightarrow> pyfloat \<Rightarrow> pyfloat" where
  "flt_add (Fin a) (Fin b) = Fin (a + b)"
| "flt_add _ _ = NaN"

fun flt_div :: "pyfloat \<Rightarrow> nat \<Rightarrow> pyfloat" where
  "flt_div (Fin a) n = Fin (a / real n)"
| "flt_div NaN n = NaN"

text \<open>
  Two builtins are not code of the repository and are parameters of the model:
  \<^verbatim>\<open>float(s)\<close>, which parses a string or raises \<^verbatim>\<open>ValueError\<close>, and \<^verbatim>\<open>str(x)\<close> of a
  float.
\<close>

record python =
  float_of :: "string \<Rightarrow> pyfloat option"
  str_of :: "pyfloat \<Rightarrow> string"

text \<open>
  A cell of \<^verbatim>\<open>core.py\<close> is a float or a string (\<^verbatim>\<open>Union[str, float]\<close>); a cell of
  \<^verbatim>\<open>main.py\<close> is a string. A row is a dictionary from column names to cells.
\<close>

datatype cell = is_Num: Num (num_of: pyfloat) | is_Text: Text (text_of: string)

type_synonym core_row = "string \<rightharpoonup> cell"
type_synonym main_row = "string \<rightharpoonup> string"

text \<open>\<^verbatim>\<open>float(v) if not isinstance(v, (int, float)) else v\<close>\<close>

fun core_to_num :: "python \<Rightarrow> cell \<Rightarrow> pyfloat option" where
  "core_to_num py (Num x) = Some x"
| "core_to_num py (Text s) = float_of py s"

text \<open>\<^verbatim>\<open>str(v)\<close>\<close>

fun py_str :: "python \<Rightarrow> cell \<Rightarrow> string" where
  "py_str py (Num x) = str_of py x"
| "py_str py (Text s) = s"

subsection \<open>The filter of core.py\<close>

text \<open>
  The numeric branch of \<^verbatim>\<open>apply_filter\<close> in \<^verbatim>\<open>core.py\<close>: the chain of \<^verbatim>\<open>if\<close> and
  \<^verbatim>\<open>elif\<close> over the operator, ending in \<^verbatim>\<open>condition_met = False\<close>.
\<close>

definition core_numeric_met :: "string \<Rightarrow> pyfloat \<Rightarrow> pyfloat \<Rightarrow> bool" where
  "core_numeric_met operator row_num val_num =
     (if operator = ''>'' then flt_gt row_num val_num
      else if operator = ''<'' then flt_lt row_num val_num
      else if operator = ''='' then flt_eq row_num val_num
      else if operator = ''>='' then flt_ge row_num val_num
      else if operator = ''<='' then flt_le row_num val_num
      else False)"

text \<open>The \<^verbatim>\<open>except (ValueError, TypeError)\<close> branch: comparison as strings.\<close>

definition core_text_met :: "string \<Rightarrow> string \<Rightarrow> string \<Rightarrow> bool" where
  "core_text_met operator str_row str_val =
     (if operator = ''='' then str_row = str_val
      else if operator = ''>'' then str_row > str_val
      else if operator = ''<'' then str_row < str_val
      else False)"

text \<open>
  The body of the loop for a row that has the column: both conversions are tried, and
  the failure of either one leads to the comparison as strings.
\<close>

definition core_condition_met :: "python \<Rightarrow> string \<Rightarrow> string \<Rightarrow> cell \<Rightarrow> bool" where
  "core_condition_met py operator val row_value =
     (case core_to_num py row_value of
        None \<Rightarrow> core_text_met operator (py_str py row_value) val
      | Some row_num \<Rightarrow>
          (case float_of py val of
             None \<Rightarrow> core_text_met operator (py_str py row_value) val
           | Some val_num \<Rightarrow> core_numeric_met operator row_num val_num))"

text \<open>
  The loop over the rows, with \<^verbatim>\<open>filtered_data\<close> as the accumulator; a row without the
  column (\<^verbatim>\<open>row.get(column) is None\<close>) is skipped.
\<close>

fun core_filter_loop ::
  "python \<Rightarrow> string \<Rightarrow> string \<Rightarrow> string \<Rightarrow> core_row list \<Rightarrow> core_row list \<Rightarrow> core_row list"
where
  "core_filter_loop py column operator val [] filtered_data = filtered_data"
| "core_filter_loop py column operator val (row # rest) filtered_data =
     (case row column of
        None \<Rightarrow> core_filter_loop py column operator val rest filtered_data
      | Some row_value \<Rightarrow>
          (if core_condition_met py operator val row_value
           then core_filter_loop py column operator val rest (filtered_data @ [row])
           else core_filter_loop py column operator val rest filtered_data))"

text \<open>What one iteration of that loop decides for its row.\<close>

definition core_row_met :: "python \<Rightarrow> string \<Rightarrow> string \<Rightarrow> string \<Rightarrow> core_row \<Rightarrow> bool" where
  "core_row_met py column operator val row =
     (case row column of None \<Rightarrow> False | Some row_value \<Rightarrow> core_condition_met py operator val row_value)"

definition core_apply_filter :: "python \<Rightarrow> core_row list \<Rightarrow> string \<Rightarrow> error + core_row list" where
  "core_apply_filter py data condition =
     (case parse_condition condition of
        Inl e \<Rightarrow> Inl e
      | Inr (column, operator, val) \<Rightarrow> Inr (core_filter_loop py column operator val data []))"

subsection \<open>The filter of main.py\<close>

text \<open>
  The numeric branch of \<^verbatim>\<open>main.py\<close> has no final \<^verbatim>\<open>else\<close>: with an operator outside
  the five, \<^verbatim>\<open>condition_met\<close> would be read without having been assigned in this
  iteration. \<open>parse_condition\<close> only returns one of the five, so that branch is never
  reached from \<open>main_apply_filter\<close>.
\<close>

definition main_numeric_met :: "string \<Rightarrow> pyfloat \<Rightarrow> pyfloat \<Rightarrow> error + bool" where
  "main_numeric_met operator row_num val_num =
     (if operator = ''>'' then Inr (flt_gt row_num val_num)
      else if operator = ''<'' then Inr (flt_lt row_num val_num)
      else if operator = ''='' then Inr (flt_eq row_num val_num)
      else if operator = ''>='' then Inr (flt_ge row_num val_num)
      else if operator = ''<='' then Inr (flt_le row_num val_num)
      else Inl UnboundLocalError)"

text \<open>The \<^verbatim>\<open>except ValueError\<close> branch, which raises for any other operator.\<close>

definition main_text_met :: "string \<Rightarrow> string \<Rightarrow> string \<Rightarrow> error + bool" where
  "main_text_met operator row_value val =
     (if operator = ''='' then Inr (row_value = val)
      else if operator = ''>'' then Inr (row_value > val)
      else if operator = ''<'' then Inr (row_value < val)
      else Inl UnsupportedOperator)"

definition main_condition_met :: "python \<Rightarrow> string \<Rightarrow> string \<Rightarrow> string \<Rightarrow> error + bool" where
  "main_condition_met py operator val row_value =
     (case float_of py row_value of
        None \<Rightarrow> main_text_met operator row_value val
      | Some row_num \<Rightarrow>
          (case float_of py val of
             None \<Rightarrow> main_text_met operator row_value val
           | Some val_num \<Rightarrow> main_numeric_met operator row_num val_num))"

text \<open>The loop; \<^verbatim>\<open>row[column]\<close> raises \<^verbatim>\<open>KeyError\<close> on a row without the column.\<close>

fun main_filter_loop ::
  "python \<Rightarrow> string \<Rightarrow> string \<Rightarrow> string \<Rightarrow> main_row list \<Rightarrow> main_row list \<Rightarrow> error + main_row list"
where
  "main_filter_loop py column operator val [] filtered_data = Inr filtered_data"
| "main_filter_loop py column operator val (row # rest) filtered_data =
     (case row column of
        None \<Rightarrow> Inl KeyError
      | Some row_value \<Rightarrow>
          (case main_condition_met py operator val row_value of
             Inl e \<Rightarrow> Inl e
           | Inr condition_met \<Rightarrow>
               (if condition_met
                then main_filter_loop py column operator val rest (filtered_data @ [row])
                else main_filter_loop py column operator val rest filtered_data)))"

text \<open>What one iteration of that loop decides for its row, or the error it raises.\<close>

definition main_row_met :: "python \<Rightarrow> string \<Rightarrow> string \<Rightarrow> string \<Rightarrow> main_row \<Rightarrow> error + bool" where
  "main_row_met py column operator val row =
     (case row column of None \<Rightarrow> Inl KeyError | Some row_value \<Rightarrow> main_condition_met py operator val row_value)"




definition main_apply_filter :: "python \<Rightarrow> main_row list \<Rightarrow> string \<Rightarrow> error + main_row list" where
  "main_apply_filter py data condition =
     (case parse_condition condition of
        Inl e \<Rightarrow> Inl e
      | Inr (column, operator, val) \<Rightarrow> main_filter_loop py column operator val data [])"

subsection \<open>Aggregation\<close>

text \<open>
  The value of a result record: \<^verbatim>\<open>None\<close>, a float, or an \<^verbatim>\<open>int\<close> (\<^verbatim>\<open>len\<close>, and the
  literal \<^verbatim>\<open>0\<close> of \<^verbatim>\<open>median\<close> and of \<^verbatim>\<open>sum\<close> on an empty list).
\<close>

datatype pyval = PyNone | PyFloat pyfloat | PyInt int

record agg_result =
  res_operation :: string
  res_column :: string
  res_value :: pyval

text \<open>\<^verbatim>\<open>xs[i]\<close> for an index that is not negative.\<close>

definition py_index :: "'a list \<Rightarrow> nat \<Rightarrow> error + 'a" where
  "py_index xs i = (if i < length xs then Inr (xs ! i) else Inl IndexError)"

text \<open>\<^verbatim>\<open>sum(x)\<close> starts from the integer 0.\<close>

definition py_sum :: "pyfloat list \<Rightarrow> pyval" where
  "py_sum x = (if x = [] then PyInt 0 else PyFloat (foldl flt_add (Fin 0) x))"

text \<open>\<^verbatim>\<open>lambda x: sum(x) / len(x)\<close>\<close>

definition agg_avg :: "pyfloat list \<Rightarrow> error + pyval" where
  "agg_avg x = (if length x = 0 then Inl ZeroDivisionError
                else Inr (PyFloat (flt_div (foldl flt_add (Fin 0) x) (length x))))"

text \<open>
  \<^verbatim>\<open>min\<close> and \<^verbatim>\<open>max\<close>: the first element, replaced by each later element that is less
  (greater) than the one held.
\<close>

fun agg_min :: "pyfloat list \<Rightarrow> error + pyval" where
  "agg_min [] = Inl EmptySequence"
| "agg_min (v # vs) = Inr (PyFloat (fold (\<lambda>x m. if flt_lt x m then x else m) vs v))"

fun agg_max :: "pyfloat list \<Rightarrow> error + pyval" where
  "agg_max [] = Inl EmptySequence"
| "agg_max (v # vs) = Inr (PyFloat (fold (\<lambda>x m. if flt_gt x m then x else m) vs v))"

text \<open>
  \<^verbatim>\<open>sorted\<close> on floats. Where no key is not-a-number, \<^verbatim>\<open><\<close> is a total order and the
  result of \<^verbatim>\<open>sorted\<close>, which is stable, is the one stable sorted list, \<open>sort_key\<close>. With
  not-a-number among the keys the result depends on the algorithm. A list of fewer than
  64 elements is sorted by CPython (\<^verbatim>\<open>listobject.c\<close> of version 3.11) in two steps:
  \<^verbatim>\<open>count_run\<close> finds the run the list starts with, ascending or strictly descending,
  and reverses a descending one; \<^verbatim>\<open>binarysort\<close> then inserts each remaining element into
  the sorted part, at the position a binary search with \<^verbatim>\<open><\<close> finds. \<open>list_sort\<close> does
  the same; for a longer list CPython merges several runs, which is not modelled.
\<close>

fun run_asc :: "('a \<Rightarrow> 'a \<Rightarrow> bool) \<Rightarrow> 'a \<Rightarrow> 'a list \<Rightarrow> 'a list" where
  "run_asc lt prev [] = []"
| "run_asc lt prev (x # xs) = (if lt x prev then [] else x # run_asc lt x xs)"

fun run_desc :: "('a \<Rightarrow> 'a \<Rightarrow> bool) \<Rightarrow> 'a \<Rightarrow> 'a list \<Rightarrow> 'a list" where
  "run_desc lt prev [] = []"
| "run_desc lt prev (x # xs) = (if lt x prev then x # run_desc lt x xs else [])"

text \<open>The initial run, made ascending, and the elements after it.\<close>

fun count_run :: "('a \<Rightarrow> 'a \<Rightarrow> bool) \<Rightarrow> 'a list \<Rightarrow> 'a list \<times> 'a list" where
  "count_run lt [] = ([], [])"
| "count_run lt [x] = ([x], [])"
| "count_run lt (x # y # rest) =
     (if lt y x
      then (rev (x # y # run_desc lt y rest), drop (length (run_desc lt y rest)) rest)
      else (x # y # run_asc lt y rest, drop (length (run_asc lt y rest)) rest))"

text \<open>
  The binary search of \<^verbatim>\<open>binarysort\<close>:
  \<^verbatim>\<open>
      do {
          p = l + ((r - l) >> 1);
          IFLT(pivot, *p) r = p; else l = p + 1;
      } while (l < r);
  \<close>
\<close>

function bin_pos :: "('a \<Rightarrow> 'a \<Rightarrow> bool) \<Rightarrow> 'a \<Rightarrow> 'a list \<Rightarrow> nat \<Rightarrow> nat \<Rightarrow> nat" where
  "bin_pos lt pivot ys l r =
     (if l < r
      then (if lt pivot (ys ! (l + (r - l) div 2))
            then bin_pos lt pivot ys l (l + (r - l) div 2)
            else bin_pos lt pivot ys (l + (r - l) div 2 + 1) r)
      else l)"
  by pat_completeness auto
termination
  by (relation "measure (\<lambda>(lt, pivot, ys, l, r). r - l)") auto

declare bin_pos.simps [simp del]

definition binary_insert :: "('a \<Rightarrow> 'a \<Rightarrow> bool) \<Rightarrow> 'a list \<Rightarrow> 'a \<Rightarrow> 'a list" where
  "binary_insert lt ys pivot =
     take (bin_pos lt pivot ys 0 (length ys)) ys @ pivot # drop (bin_pos lt pivot ys 0 (length ys)) ys"

definition list_sort :: "('a \<Rightarrow> 'a \<Rightarrow> bool) \<Rightarrow> 'a list \<Rightarrow> 'a list" where
  "list_sort lt xs = (case count_run lt xs of (run, rest) \<Rightarrow> foldl (binary_insert lt) run rest)"

definition float_sorted :: "('a \<Rightarrow> pyfloat) \<Rightarrow> 'a list \<Rightarrow> 'a list" where
  "float_sorted k xs =
     (if list_all (\<lambda>x. is_Fin (k x)) xs then sort_key (\<lambda>x. fin_of (k x)) xs
      else list_sort (\<lambda>a b. flt_lt (k a) (k b)) xs)"

text \<open>\<^verbatim>\<open>lambda x: sorted(x)[len(x) // 2] if x else 0\<close>\<close>

definition agg_median :: "pyfloat list \<Rightarrow> error + pyval" where
  "agg_median x =
     (if x \<noteq> [] then map_sum id PyFloat (py_index (float_sorted (\<lambda>v. v) x) (length x div 2))
      else Inr (PyInt 0))"

definition agg_sum :: "pyfloat list \<Rightarrow> error + pyval" where
  "agg_sum x = Inr (py_sum x)"

definition agg_count :: "pyfloat list \<Rightarrow> error + pyval" where
  "agg_count x = Inr (PyInt (int (length x)))"

text \<open>The table \<^verbatim>\<open>AGGREGATIONS\<close> of \<^verbatim>\<open>core.py\<close> and the one of \<^verbatim>\<open>main.py\<close>.\<close>

definition core_AGGREGATIONS :: "(string \<times> (pyfloat list \<Rightarrow> error + pyval)) list" where
  "core_AGGREGATIONS =
     [(''avg'', agg_avg), (''min'', agg_min), (''max'', agg_max),
      (''median'', agg_median), (''sum'', agg_sum), (''count'', agg_count)]"

definition main_AGGREGATIONS :: "(string \<times> (pyfloat list \<Rightarrow> error + pyval)) list" where
  "main_AGGREGATIONS =
     [(''avg'', agg_avg), (''min'', agg_min), (''max'', agg_max), (''median'', agg_median)]"

text \<open>
  The first lines of \<^verbatim>\<open>apply_aggregation\<close> and of \<^verbatim>\<open>apply_order_by\<close>, the same in both
  files:
  \<^verbatim>\<open>
      if '=' not in condition:
          raise ValueError(...)
      column, operation = condition.split('=', maxsplit=1)
      column, operation = column.strip(), operation.strip()
  \<close>
\<close>

definition split_spec :: "string \<Rightarrow> error + (string \<times> string)" where
  "split_spec condition =
     (if \<not> contains ''='' condition then Inl MalformedSpec
      else (case split_once ''='' condition of
              [column, operation] \<Rightarrow> Inr (strip column, strip operation)
            | _ \<Rightarrow> Inl UnpackError))"

text \<open>
  The list comprehension of \<^verbatim>\<open>core.py\<close>, which leaves out the rows without the column
  (\<^verbatim>\<open>if column in row\<close>); the first conversion that fails ends it.
\<close>

fun core_collect :: "python \<Rightarrow> string \<Rightarrow> core_row list \<Rightarrow> error + pyfloat list" where
  "core_collect py column [] = Inr []"
| "core_collect py column (row # rest) =
     (case row column of
        None \<Rightarrow> core_collect py column rest
      | Some v \<Rightarrow>
          (case core_to_num py v of
             None \<Rightarrow> Inl FloatValueError
           | Some x \<Rightarrow> map_sum id (\<lambda>xs. x # xs) (core_collect py column rest)))"

text \<open>
  \<^verbatim>\<open>apply_aggregation\<close> of \<^verbatim>\<open>core.py\<close>. The \<^verbatim>\<open>except (ValueError, TypeError)\<close> around
  the comprehension turns its failure into the error of a non-numeric column.
\<close>

definition core_apply_aggregation ::
  "python \<Rightarrow> core_row list \<Rightarrow> string \<Rightarrow> error + agg_result list" where
  "core_apply_aggregation py data condition =
     (case split_spec condition of
        Inl e \<Rightarrow> Inl e
      | Inr (column, operation) \<Rightarrow>
          (case map_of core_AGGREGATIONS operation of
             None \<Rightarrow> Inl UnknownOperation
           | Some f \<Rightarrow>
               (case core_collect py column data of
                  Inl e \<Rightarrow> Inl NonNumericColumn
                | Inr vals \<Rightarrow>
                    (if vals = []
                     then Inr [\<lparr>res_operation = operation, res_column = column,
                                res_value = PyNone\<rparr>]
                     else (case f vals of
                             Inl e \<Rightarrow> Inl e
                           | Inr result \<Rightarrow>
                               Inr [\<lparr>res_operation = operation, res_column = column,
                                     res_value = result\<rparr>])))))"

text \<open>
  The comprehension of \<^verbatim>\<open>main.py\<close>, \<^verbatim>\<open>[float(row[column]) for row in data]\<close>: a row
  without the column raises \<^verbatim>\<open>KeyError\<close>.
\<close>

fun main_collect :: "python \<Rightarrow> string \<Rightarrow> main_row list \<Rightarrow> error + pyfloat list" where
  "main_collect py column [] = Inr []"
| "main_collect py column (row # rest) =
     (case row column of
        None \<Rightarrow> Inl KeyError
      | Some s \<Rightarrow>
          (case float_of py s of
             None \<Rightarrow> Inl FloatValueError
           | Some x \<Rightarrow> map_sum id (\<lambda>xs. x # xs) (main_collect py column rest)))"

text \<open>
  \<^verbatim>\<open>apply_aggregation\<close> of \<^verbatim>\<open>main.py\<close>: \<^verbatim>\<open>except ValueError\<close> catches the failure of
  \<^verbatim>\<open>float\<close> only, and the operation is applied to the values whatever their number.
\<close>

definition main_apply_aggregation ::
  "python \<Rightarrow> main_row list \<Rightarrow> string \<Rightarrow> error + agg_result list" where
  "main_apply_aggregation py data condition =
     (case split_spec condition of
        Inl e \<Rightarrow> Inl e
      | Inr (column, operation) \<Rightarrow>
          (case map_of main_AGGREGATIONS operation of
             None \<Rightarrow> Inl UnknownOperation
           | Some f \<Rightarrow>
               (case main_collect py column data of
                  Inl e \<Rightarrow> (if e = FloatValueError then Inl NonNumericColumn else Inl e)
                | Inr vals \<Rightarrow>
                    (case f vals of
                       Inl e \<Rightarrow> Inl e
                     | Inr result \<Rightarrow>
                         Inr [\<lparr>res_operation = operation, res_column = column,
                               res_value = result\<rparr>]))))"

subsection \<open>Ordering\<close>

text \<open>
  \<^verbatim>\<open>
  SORT_ORDERS = {
      'asc': lambda x: x,
      'desc': lambda x: -x if isinstance(x, (int, float)) else str(x)[::-1],
  }
  \<close>
  (\<^verbatim>\<open>x[::-1]\<close> in \<^verbatim>\<open>main.py\<close>, where the argument that is not a number is a string.)
\<close>

fun desc_key :: "cell \<Rightarrow> cell" where
  "desc_key (Num x) = Num (flt_neg x)"
| "desc_key (Text s) = Text (rev s)"

definition SORT_ORDERS :: "(string \<times> (cell \<Rightarrow> cell)) list" where
  "SORT_ORDERS = [(''asc'', \<lambda>x. x), (''desc'', desc_key)]"

text \<open>
  \<^verbatim>\<open>sorted(data, key=k)\<close>: the key of every element is computed first, in the order of
  the list, and the first key that raises ends the call; the elements are then sorted by
  their keys with \<^verbatim>\<open><\<close>. Keys that are all floats are sorted as \<open>float_sorted\<close> does, keys
  that are all strings are totally ordered and sorted stably, and a list that holds a
  float and a string makes \<^verbatim>\<open><\<close> raise \<^verbatim>\<open>TypeError\<close>.
\<close>

fun keys_of :: "('a \<Rightarrow> error + cell) \<Rightarrow> 'a list \<Rightarrow> error + cell list" where
  "keys_of k [] = Inr []"
| "keys_of k (x # xs) =
     (case k x of
        Inl e \<Rightarrow> Inl e
      | Inr c \<Rightarrow> map_sum id (\<lambda>cs. c # cs) (keys_of k xs))"

definition py_sorted :: "('a \<Rightarrow> error + cell) \<Rightarrow> 'a list \<Rightarrow> error + 'a list" where
  "py_sorted k xs =
     (case keys_of k xs of
        Inl e \<Rightarrow> Inl e
      | Inr cs \<Rightarrow>
          (if list_all is_Num cs
           then Inr (map snd (float_sorted (\<lambda>p. num_of (fst p)) (zip cs xs)))
           else if list_all is_Text cs
           then Inr (map snd (sort_key (\<lambda>p. text_of (fst p)) (zip cs xs)))
           else Inl TypeError))"

text \<open>
  The two keys of \<^verbatim>\<open>core.py\<close>, before the direction is applied:
  \<^verbatim>\<open>x.get(column, 0)\<close> and \<^verbatim>\<open>str(x.get(column, ''))\<close>.
\<close>

definition core_key1 :: "string \<Rightarrow> core_row \<Rightarrow> cell" where
  "core_key1 column x = (case x column of None \<Rightarrow> Num (Fin 0) | Some v \<Rightarrow> v)"

definition core_key2 :: "python \<Rightarrow> string \<Rightarrow> core_row \<Rightarrow> cell" where
  "core_key2 py column x = Text (py_str py (case x column of None \<Rightarrow> Text [] | Some v \<Rightarrow> v))"

text \<open>
  \<^verbatim>\<open>
      try:
          return sorted(data, key=lambda x: SORT_ORDERS[order](x.get(column, 0)))
      except TypeError:
          return sorted(data, key=lambda x: SORT_ORDERS[order](str(x.get(column, ''))))
  \<close>
\<close>

definition core_apply_order_by ::
  "python \<Rightarrow> core_row list \<Rightarrow> string \<Rightarrow> error + core_row list" where
  "core_apply_order_by py data condition =
     (case split_spec condition of
        Inl e \<Rightarrow> Inl e
      | Inr (column, order) \<Rightarrow>
          (case map_of SORT_ORDERS order of
             None \<Rightarrow> Inl UnknownDirection
           | Some f \<Rightarrow>
               (case py_sorted (\<lambda>x. Inr (f (core_key1 column x))) data of
                  Inr out \<Rightarrow> Inr out
                | Inl e \<Rightarrow>
                    (if e = TypeError
                     then py_sorted (\<lambda>x. Inr (f (core_key2 py column x))) data
                     else Inl e))))"

text \<open>
  The two keys of \<^verbatim>\<open>main.py\<close>, before the direction is applied: \<^verbatim>\<open>float(x[column])\<close> and
  \<^verbatim>\<open>x[column]\<close>.
\<close>

definition main_key1 :: "python \<Rightarrow> string \<Rightarrow> main_row \<Rightarrow> error + cell" where
  "main_key1 py column x =
     (case x column of
        None \<Rightarrow> Inl KeyError
      | Some s \<Rightarrow> (case float_of py s of None \<Rightarrow> Inl FloatValueError | Some v \<Rightarrow> Inr (Num v)))"

definition main_key2 :: "string \<Rightarrow> main_row \<Rightarrow> error + cell" where
  "main_key2 column x = (case x column of None \<Rightarrow> Inl KeyError | Some s \<Rightarrow> Inr (Text s))"

text \<open>
  \<^verbatim>\<open>
      try:
          return sorted(data, key=lambda x: SORT_ORDERS[order](float(x[column])))
      except ValueError:
          return sorted(data, key=lambda x: SORT_ORDERS[order](x[column]))
  \<close>
\<close>

definition main_apply_order_by ::
  "python \<Rightarrow> main_row list \<Rightarrow> string \<Rightarrow> error + main_row list" where
  "main_apply_order_by py data condition =
     (case split_spec condition of
        Inl e \<Rightarrow> Inl e
      | Inr (column, order) \<Rightarrow>
          (case map_of SORT_ORDERS order of
             None \<Rightarrow> Inl UnknownDirection
           | Some f \<Rightarrow>
               (case py_sorted (\<lambda>x. map_sum id f (main_key1 py column x)) data of
                  Inr out \<Rightarrow> Inr out
                | Inl e \<Rightarrow>
                    (if e = FloatValueError
                     then py_sorted (\<lambda>x. map_sum id f (main_key2 column x)) data
                     else Inl e))))"

subsection \<open>A concrete instance of the builtins, for evaluation\<close>

text \<open>
  \<open>dec_float\<close> reads a string of decimal digits and the string \<^verbatim>\<open>nan\<close>, and rejects
  every other string; \<open>dec_str\<close> prints not-a-number and a float whose value is a natural
  number as Python does (\<^verbatim>\<open>str(30.0) == '30.0'\<close>). On the strings and numbers of the
  examples below they agree with \<^verbatim>\<open>float\<close> and \<^verbatim>\<open>str\<close>.
\<close>

definition is_digit :: "char \<Rightarrow> bool" where
  "is_digit c = (48 \<le> (of_char c :: nat) \<and> (of_char c :: nat) \<le> 57)"

fun dec_nat :: "nat \<Rightarrow> string \<Rightarrow> nat option" where
  "dec_nat acc [] = Some acc"
| "dec_nat acc (c # cs) =
     (if is_digit c then dec_nat (10 * acc + (of_char c - 48)) cs else None)"

definition dec_float :: "string \<Rightarrow> pyfloat option" where
  "dec_float s =
     (if s = ''nan'' then Some NaN
      else if s = [] then None
      else map_option (\<lambda>n. Fin (real n)) (dec_nat 0 s))"

function dec_digits :: "nat \<Rightarrow> string" where
  "dec_digits n =
     (if n < 10 then [''0123456789'' ! n]
      else dec_digits (n div 10) @ [''0123456789'' ! (n mod 10)])"
  by pat_completeness auto
termination
  by (relation "measure id") auto

declare dec_digits.simps [simp del]

fun dec_str :: "pyfloat \<Rightarrow> string" where
  "dec_str (Fin x) = dec_digits (nat \<lfloor>x\<rfloor>) @ ''.0''"
| "dec_str NaN = ''nan''"

definition py0 :: python where
  "py0 = \<lparr>float_of = dec_float, str_of = dec_str\<rparr>"

text \<open>The rows of the examples, as \<^verbatim>\<open>core.py\<close> and as \<^verbatim>\<open>main.py\<close> read them.\<close>

definition core_bob :: core_row where
  "core_bob = [''name'' \<mapsto> Text ''Bob'', ''age'' \<mapsto> Num (Fin 25), ''salary'' \<mapsto> Num (Fin 4000)]"

definition core_alice :: core_row where
  "core_alice = [''name'' \<mapsto> Text ''Alice'', ''age'' \<mapsto> Num (Fin 30), ''salary'' \<mapsto> Num (Fin 5000)]"

definition core_eve :: core_row where
  "core_eve = [''name'' \<mapsto> Text ''Eve'', ''age'' \<mapsto> Num (Fin 35), ''salary'' \<mapsto> Num (Fin 6000)]"

definition core_dan :: core_row where
  "core_dan = [''name'' \<mapsto> Text ''Dan'', ''age'' \<mapsto> Num (Fin 30), ''salary'' \<mapsto> Num (Fin 5500)]"

definition core_anon :: core_row where
  "core_anon = [''name'' \<mapsto> Text ''Zed'']"

definition core_noname :: core_row where
  "core_noname = [''age'' \<mapsto> Num (Fin 40)]"

definition main_bob :: main_row where
  "main_bob = [''name'' \<mapsto> ''Bob'', ''age'' \<mapsto> ''25'', ''salary'' \<mapsto> ''4000'']"

definition main_alice :: main_row where
  "main_alice = [''name'' \<mapsto> ''Alice'', ''age'' \<mapsto> ''30'', ''salary'' \<mapsto> ''5000'']"

definition main_eve :: main_row where
  "main_eve = [''name'' \<mapsto> ''Eve'', ''age'' \<mapsto> ''35'', ''salary'' \<mapsto> ''6000'']"

definition main_dan :: main_row where
  "main_dan = [''name'' \<mapsto> ''Dan'', ''age'' \<mapsto> ''30'', ''salary'' \<mapsto> ''5500'']"

text \<open>Rows with an identifier and a key, for the examples of sorting.\<close>

definition core_keyed :: "real \<Rightarrow> pyfloat \<Rightarrow> core_row" where
  "core_keyed i x = [''id'' \<mapsto> Num (Fin i), ''k'' \<mapsto> Num x]"

definition main_keyed :: "string \<Rightarrow> string \<Rightarrow> main_row" where
  "main_keyed i s = [''id'' \<mapsto> i, ''k'' \<mapsto> s]"

section \<open>Properties\<close>

subsection \<open>The condition parser\<close>










subsection \<open>Filtering\<close>


lemma core_filter_loop_filter:
  "core_filter_loop py column operator val data acc =
     acc @ filter (core_row_met py column operator val) data"
  by (induction data arbitrary: acc) (auto simp: core_row_met_def split: option.splits)

lemma main_filter_loop_step:
  "main_filter_loop py column operator val (row # rest) acc =
     (case main_row_met py column operator val row of
        Inl e \<Rightarrow> Inl e
      | Inr b \<Rightarrow> main_filter_loop py column operator val rest (if b then acc @ [row] else acc))"
  by (simp add: main_row_met_def split: option.splits sum.splits)

lemma main_filter_loop_Inr:
  "main_filter_loop py column operator val data acc = Inr out \<Longrightarrow>
     out = acc @ filter (\<lambda>row. main_row_met py column operator val row = Inr True) data
     \<and> (\<forall>row \<in> set data. \<exists>b. main_row_met py column operator val row = Inr b)"
proof (induction data arbitrary: acc)
  case Nil
  then show ?case by simp
next
  case (Cons row rest)
  from Cons.prems obtain b where b: "main_row_met py column operator val row = Inr b"
    and r: "main_filter_loop py column operator val rest (if b then acc @ [row] else acc) = Inr out"
    unfolding main_filter_loop_step by (auto split: sum.splits)
  from Cons.IH[OF r] b show ?case by (cases b) auto
qed

lemma main_filter_loop_total:
  "\<forall>row \<in> set data. \<exists>b. main_row_met py column operator val row = Inr b \<Longrightarrow>
     main_filter_loop py column operator val data acc =
       Inr (acc @ filter (\<lambda>row. main_row_met py column operator val row = Inr True) data)"
proof (induction data arbitrary: acc)
  case Nil
  then show ?case by simp
next
  case (Cons row rest)
  then obtain b where b: "main_row_met py column operator val row = Inr b" by auto
  have "\<forall>row \<in> set rest. \<exists>b. main_row_met py column operator val row = Inr b"
    using Cons.prems by simp
  from Cons.IH[OF this] b show ?case
    unfolding main_filter_loop_step by (cases b) auto
qed





lemma core_apply_filter_eq:
  "parse_condition condition = Inr (column, operator, val) \<Longrightarrow>
     core_apply_filter py data condition = Inr (filter (core_row_met py column operator val) data)"
  by (simp add: core_apply_filter_def core_filter_loop_filter)

lemma main_apply_filter_Inr:
  assumes "parse_condition condition = Inr (column, operator, val)"
    and "main_apply_filter py data condition = Inr out"
  shows "out = filter (\<lambda>row. main_row_met py column operator val row = Inr True) data"
    and "\<forall>row \<in> set data. \<exists>b. main_row_met py column operator val row = Inr b"
  using assms main_filter_loop_Inr[of py column operator val data "[]" out]
  by (simp_all add: main_apply_filter_def)

lemma main_apply_filter_total:
  assumes "parse_condition condition = Inr (column, operator, val)"
    and "\<forall>row \<in> set data. \<exists>b. main_row_met py column operator val row = Inr b"
  shows "main_apply_filter py data condition =
           Inr (filter (\<lambda>row. main_row_met py column operator val row = Inr True) data)"
  using assms main_filter_loop_total[of data py column operator val "[]"]
  by (simp add: main_apply_filter_def)




lemma parse_age_gt: "parse_condition ''age>25'' = Inr (''age'', ''>'', ''25'')"
  by (simp add: parse_condition_def operators_def split_once_def strip_def isspace_def)


lemma py0_float_25: "float_of py0 ''25'' = Some (Fin 25)"
  by (simp add: py0_def dec_float_def is_digit_def)

lemma py0_float_names:
  "float_of py0 ''Alice'' = None" "float_of py0 ''Bob'' = None" "float_of py0 ''Eve'' = None"
  by (simp_all add: py0_def dec_float_def is_digit_def)


text \<open>
  Claim C9. Filtering is idempotent: when the filter returns a list of rows, the same
  filter applied to that list returns it unchanged, in \<^verbatim>\<open>core.py\<close> and in \<^verbatim>\<open>main.py\<close>.
\<close>

theorem filter_idempotent:
  "(\<forall>out. core_apply_filter py data condition = Inr out \<longrightarrow>
       core_apply_filter py out condition = Inr out)
   \<and> (\<forall>out. main_apply_filter py mdata condition = Inr out \<longrightarrow>
       main_apply_filter py out condition = Inr out)"
proof (intro conjI allI impI)
  fix out assume a: "core_apply_filter py data condition = Inr out"
  then obtain column operator val where p: "parse_condition condition = Inr (column, operator, val)"
    by (auto simp: core_apply_filter_def split: sum.splits)
  from a have "out = filter (core_row_met py column operator val) data"
    using core_apply_filter_eq[OF p, of py data] by simp
  then show "core_apply_filter py out condition = Inr out"
    using core_apply_filter_eq[OF p, of py out] by simp
next
  fix out assume a: "main_apply_filter py mdata condition = Inr out"
  then obtain column operator val where p: "parse_condition condition = Inr (column, operator, val)"
    by (auto simp: main_apply_filter_def split: sum.splits)
  note r = main_apply_filter_Inr[OF p a]
  have "\<forall>row \<in> set out. \<exists>b. main_row_met py column operator val row = Inr b"
    using r by auto
  from main_apply_filter_total[OF p this] show "main_apply_filter py out condition = Inr out"
    using r(1) by simp
qed

theorem filter_idempotent_witness:
  "core_apply_filter py0 [core_bob, core_alice, core_eve] ''age>25'' = Inr [core_alice, core_eve]
   \<and> core_apply_filter py0 [core_alice, core_eve] ''age>25'' = Inr [core_alice, core_eve]
   \<and> main_apply_filter py0 [main_bob, main_alice, main_eve] ''name<Bob'' = Inr [main_alice]
   \<and> main_apply_filter py0 [main_alice] ''name<Bob'' = Inr [main_alice]"
proof -
  have c: "core_apply_filter py0 [core_bob, core_alice, core_eve] ''age>25'' = Inr [core_alice, core_eve]"
    by (simp add: core_apply_filter_def parse_age_gt core_bob_def core_alice_def core_eve_def
        core_condition_met_def core_numeric_met_def flt_gt_def py0_def dec_float_def is_digit_def)
  have m: "main_apply_filter py0 [main_bob, main_alice, main_eve] ''name<Bob'' = Inr [main_alice]"
    by (simp add: main_apply_filter_def parse_condition_def operators_def split_once_def strip_def
        isspace_def main_bob_def main_alice_def main_eve_def
        main_condition_met_def main_text_met_def py0_def dec_float_def is_digit_def)
  from filter_idempotent[of py0 "[core_bob, core_alice, core_eve]" "''age>25''" "[]"] c
  have c2: "core_apply_filter py0 [core_alice, core_eve] ''age>25'' = Inr [core_alice, core_eve]"
    by blast
  from filter_idempotent[of py0 "[]" "''name<Bob''" "[main_bob, main_alice, main_eve]"] m
  have m2: "main_apply_filter py0 [main_alice] ''name<Bob'' = Inr [main_alice]"
    by blast
  show ?thesis using c c2 m m2 by blast
qed

subsection \<open>Comparison as strings\<close>

lemma parse_name_ge: "parse_condition ''name>=Bob'' = Inr (''name'', ''>='', ''Bob'')"
  by (simp add: parse_condition_def operators_def split_once_def strip_def isspace_def)

lemma parse_age_ge: "parse_condition ''age>=25'' = Inr (''age'', ''>='', ''25'')"
  by (simp add: parse_condition_def operators_def split_once_def strip_def isspace_def)

text \<open>
  In \<^verbatim>\<open>core.py\<close>, \<^verbatim>\<open>>=\<close> and \<^verbatim>\<open><=\<close> with an operand that is not a number return no row,
  whatever the dataset.
\<close>

lemma core_ge_le_on_text_returns_nothing:
  assumes p: "parse_condition condition = Inr (column, operator, val)"
    and o: "operator = ''>='' \<or> operator = ''<=''" and v: "float_of py val = None"
  shows "core_apply_filter py data condition = Inr []"
proof -
  have "\<not> core_row_met py column operator val row" for row
    using o v
    by (auto simp: core_row_met_def core_condition_met_def core_text_met_def split: option.splits)
  then show ?thesis using core_apply_filter_eq[OF p, of py data] by simp
qed

text \<open>
  Claim C5. \<^verbatim>\<open>core.py\<close> gives the condition \<^verbatim>\<open>name>=Bob\<close> a third behaviour on the row
  whose name is \<^verbatim>\<open>Bob\<close>: it neither keeps the row, as "equal or greater" would, nor
  fails, it drops the row. \<^verbatim>\<open>main.py\<close> fails with \<open>UnsupportedOperator\<close> on the same
  input, and \<^verbatim>\<open>core.py\<close> itself evaluates \<^verbatim>\<open>>=\<close> on a numeric column.
\<close>

theorem core_ge_on_text_drops_row:
  "core_apply_filter py0 [core_bob] ''name>=Bob'' = Inr []
   \<and> core_bob ''name'' = Some (Text ''Bob'')
   \<and> main_apply_filter py0 [main_bob] ''name>=Bob'' = Inl UnsupportedOperator
   \<and> core_apply_filter py0 [core_bob] ''age>=25'' = Inr [core_bob]"
proof -
  have a: "core_apply_filter py0 [core_bob] ''name>=Bob'' = Inr []"
    by (simp add: core_apply_filter_def parse_name_ge core_bob_def core_condition_met_def
        core_text_met_def py0_float_names)
  have b: "core_bob ''name'' = Some (Text ''Bob'')" by (simp add: core_bob_def)
  have c: "main_apply_filter py0 [main_bob] ''name>=Bob'' = Inl UnsupportedOperator"
    by (simp add: main_apply_filter_def parse_name_ge main_bob_def main_condition_met_def
        main_text_met_def py0_float_names)
  have d: "core_apply_filter py0 [core_bob] ''age>=25'' = Inr [core_bob]"
    by (simp add: core_apply_filter_def parse_age_ge core_bob_def core_condition_met_def
        core_numeric_met_def flt_ge_def py0_float_25)
  show ?thesis using a b c d by simp
qed

subsection \<open>Aggregation\<close>

lemma core_collect_fail:
  "\<exists>row \<in> set data. \<exists>v. row column = Some v \<and> core_to_num py v = None \<Longrightarrow>
     core_collect py column data = Inl FloatValueError"
proof (induction data)
  case Nil
  then show ?case by simp
next
  case (Cons r rest)
  show ?case
  proof (cases "\<exists>v. r column = Some v \<and> core_to_num py v = None")
    case True
    then show ?thesis by auto
  next
    case False
    then have "\<exists>row \<in> set rest. \<exists>v. row column = Some v \<and> core_to_num py v = None"
      using Cons.prems by auto
    then have "core_collect py column rest = Inl FloatValueError" by (rule Cons.IH)
    then show ?thesis by (simp split: option.splits)
  qed
qed

lemma main_collect_fail:
  "\<forall>row \<in> set data. row column \<noteq> None \<Longrightarrow>
   \<exists>row \<in> set data. \<exists>s. row column = Some s \<and> float_of py s = None \<Longrightarrow>
     main_collect py column data = Inl FloatValueError"
proof (induction data)
  case Nil
  then show ?case by simp
next
  case (Cons r rest)
  from Cons.prems(1) obtain s where s: "r column = Some s" by auto
  show ?case
  proof (cases "float_of py s")
    case None
    then show ?thesis using s by simp
  next
    case (Some x)
    then have "\<exists>row \<in> set rest. \<exists>s. row column = Some s \<and> float_of py s = None"
      using Cons.prems(2) s by auto
    moreover have "\<forall>row \<in> set rest. row column \<noteq> None" using Cons.prems(1) by simp
    ultimately have "main_collect py column rest = Inl FloatValueError" using Cons.IH by blast
    then show ?thesis using s Some by simp
  qed
qed

lemma map_of_in_names:
  "operation \<in> set (map fst tab) \<Longrightarrow> \<exists>f. map_of tab operation = Some f"
  by (metis map_of_eq_None_iff not_None_eq set_map)

text \<open>
  Claim C7. For a well-formed specification and every operation of the table, \<open>count\<close>
  included, a value of the column that fails the conversion to a float makes the
  aggregation fail with \<open>NonNumericColumn\<close>: no result is returned and no value is skipped.
  In \<^verbatim>\<open>core.py\<close> the values are those of the rows that have the column; in \<^verbatim>\<open>main.py\<close>
  every row has to have it.
\<close>

theorem non_numeric_column_aborts:
  assumes "split_spec condition = Inr (column, operation)"
  shows
    "(operation \<in> set (map fst core_AGGREGATIONS)
        \<and> (\<exists>row \<in> set data. \<exists>v. row column = Some v \<and> core_to_num py v = None) \<longrightarrow>
      core_apply_aggregation py data condition = Inl NonNumericColumn)
     \<and> (operation \<in> set (map fst main_AGGREGATIONS)
        \<and> (\<forall>row \<in> set mdata. row column \<noteq> None)
        \<and> (\<exists>row \<in> set mdata. \<exists>s. row column = Some s \<and> float_of py s = None) \<longrightarrow>
      main_apply_aggregation py mdata condition = Inl NonNumericColumn)"
proof (intro conjI impI)
  assume a: "operation \<in> set (map fst core_AGGREGATIONS)
        \<and> (\<exists>row \<in> set data. \<exists>v. row column = Some v \<and> core_to_num py v = None)"
  then have "operation \<in> set (map fst core_AGGREGATIONS)" by simp
  from map_of_in_names[OF this] obtain f where f: "map_of core_AGGREGATIONS operation = Some f"
    by (rule exE)
  from a have "core_collect py column data = Inl FloatValueError"
    using core_collect_fail by blast
  then show "core_apply_aggregation py data condition = Inl NonNumericColumn"
    using assms f by (simp add: core_apply_aggregation_def)
next
  assume a: "operation \<in> set (map fst main_AGGREGATIONS)
        \<and> (\<forall>row \<in> set mdata. row column \<noteq> None)
        \<and> (\<exists>row \<in> set mdata. \<exists>s. row column = Some s \<and> float_of py s = None)"
  then have "operation \<in> set (map fst main_AGGREGATIONS)" by simp
  from map_of_in_names[OF this] obtain f where f: "map_of main_AGGREGATIONS operation = Some f"
    by (rule exE)
  from a have "main_collect py column mdata = Inl FloatValueError"
    using main_collect_fail by blast
  then show "main_apply_aggregation py mdata condition = Inl NonNumericColumn"
    using assms f by (simp add: main_apply_aggregation_def)
qed

lemma split_name_count: "split_spec ''name=count'' = Inr (''name'', ''count'')"
  by (simp add: split_spec_def split_once_def strip_def isspace_def)

lemma split_name_avg: "split_spec ''name=avg'' = Inr (''name'', ''avg'')"
  by (simp add: split_spec_def split_once_def strip_def isspace_def)

theorem non_numeric_column_aborts_witness:
  "split_spec ''name=count'' = Inr (''name'', ''count'')
   \<and> core_apply_aggregation py0 [core_alice, core_bob] ''name=count'' = Inl NonNumericColumn
   \<and> split_spec ''name=avg'' = Inr (''name'', ''avg'')
   \<and> main_apply_aggregation py0 [main_alice, main_bob] ''name=avg'' = Inl NonNumericColumn"
proof -
  have c1: "''count'' \<in> set (map fst core_AGGREGATIONS)" by (simp add: core_AGGREGATIONS_def)
  have c2: "\<exists>row \<in> set [core_alice, core_bob]. \<exists>v. row ''name'' = Some v \<and> core_to_num py0 v = None"
    by (simp add: core_alice_def py0_def dec_float_def is_digit_def)
  have m1: "''avg'' \<in> set (map fst main_AGGREGATIONS)" by (simp add: main_AGGREGATIONS_def)
  have m2: "\<forall>row \<in> set [main_alice, main_bob]. row ''name'' \<noteq> None"
    by (simp add: main_alice_def main_bob_def)
  have m3: "\<exists>row \<in> set [main_alice, main_bob]. \<exists>s. row ''name'' = Some s \<and> float_of py0 s = None"
    by (simp add: main_alice_def py0_def dec_float_def is_digit_def)
  from non_numeric_column_aborts[OF split_name_count, of "[core_alice, core_bob]" py0 "[]"] c1 c2
  have c: "core_apply_aggregation py0 [core_alice, core_bob] ''name=count'' = Inl NonNumericColumn"
    by blast
  from non_numeric_column_aborts[OF split_name_avg, of "[]" py0 "[main_alice, main_bob]"] m1 m2 m3
  have m: "main_apply_aggregation py0 [main_alice, main_bob] ''name=avg'' = Inl NonNumericColumn"
    by blast
  show ?thesis using c m split_name_count split_name_avg by blast
qed

text \<open>
  In \<^verbatim>\<open>core.py\<close>, a dataset with no value for the column, the empty one among them, gives
  the record whose value is \<^verbatim>\<open>None\<close>, for each of the six operations.
\<close>

lemma core_aggregation_no_values:
  assumes "split_spec condition = Inr (column, operation)"
    and "operation \<in> set (map fst core_AGGREGATIONS)"
    and "core_collect py column data = Inr []"
  shows "core_apply_aggregation py data condition =
           Inr [\<lparr>res_operation = operation, res_column = column, res_value = PyNone\<rparr>]"
proof -
  obtain f where f: "map_of core_AGGREGATIONS operation = Some f"
    using map_of_in_names[OF assms(2)] by (rule exE)
  show ?thesis unfolding core_apply_aggregation_def by (simp add: assms(1,3) f)
qed

lemma split_salary_avg: "split_spec ''salary=avg'' = Inr (''salary'', ''avg'')"
  by (simp add: split_spec_def split_once_def strip_def isspace_def)
lemma split_salary_min: "split_spec ''salary=min'' = Inr (''salary'', ''min'')"
  by (simp add: split_spec_def split_once_def strip_def isspace_def)
lemma split_salary_max: "split_spec ''salary=max'' = Inr (''salary'', ''max'')"
  by (simp add: split_spec_def split_once_def strip_def isspace_def)
lemma split_salary_median: "split_spec ''salary=median'' = Inr (''salary'', ''median'')"
  by (simp add: split_spec_def split_once_def strip_def isspace_def)

text \<open>
  Claim C3. \<^verbatim>\<open>main.py\<close> has no test for an empty list of values: on the empty dataset
  \<^verbatim>\<open>avg\<close> divides by zero, \<^verbatim>\<open>min\<close> and \<^verbatim>\<open>max\<close> raise, and \<^verbatim>\<open>median\<close> returns 0, where
  \<^verbatim>\<open>core.py\<close> returns the record whose value is \<^verbatim>\<open>None\<close>.
\<close>

theorem main_aggregation_empty_dataset:
  "main_apply_aggregation py0 [] ''salary=avg'' = Inl ZeroDivisionError
   \<and> main_apply_aggregation py0 [] ''salary=min'' = Inl EmptySequence
   \<and> main_apply_aggregation py0 [] ''salary=max'' = Inl EmptySequence
   \<and> main_apply_aggregation py0 [] ''salary=median'' =
       Inr [\<lparr>res_operation = ''median'', res_column = ''salary'', res_value = PyInt 0\<rparr>]
   \<and> core_apply_aggregation py0 [] ''salary=avg'' =
       Inr [\<lparr>res_operation = ''avg'', res_column = ''salary'', res_value = PyNone\<rparr>]"
  by (simp add: main_apply_aggregation_def core_apply_aggregation_def split_salary_avg
      split_salary_min split_salary_max split_salary_median main_AGGREGATIONS_def
      core_AGGREGATIONS_def agg_avg_def agg_median_def)

lemma core_collect_salaries:
  "core_collect py0 ''salary'' [core_bob, core_alice, core_dan, core_eve] =
     Inr [Fin 4000, Fin 5000, Fin 5500, Fin 6000]"
  by (simp add: core_bob_def core_alice_def core_dan_def core_eve_def)

lemma main_collect_salaries:
  "main_collect py0 ''salary'' [main_bob, main_alice, main_dan, main_eve] =
     Inr [Fin 4000, Fin 5000, Fin 5500, Fin 6000]"
  by (simp add: main_bob_def main_alice_def main_dan_def main_eve_def py0_def dec_float_def is_digit_def)

text \<open>
  The median of the four values 4000, 5000, 5500, 6000 is 5500 in both files, not 5000.
\<close>

theorem median_of_four_counterexample:
  "agg_median [Fin 4000, Fin 5000, Fin 5500, Fin 6000] = Inr (PyFloat (Fin 5500))
   \<and> agg_median [Fin 4000, Fin 5000, Fin 5500, Fin 6000] \<noteq> Inr (PyFloat (Fin 5000))
   \<and> core_apply_aggregation py0 [core_bob, core_alice, core_dan, core_eve] ''salary=median'' =
       Inr [\<lparr>res_operation = ''median'', res_column = ''salary'', res_value = PyFloat (Fin 5500)\<rparr>]
   \<and> main_apply_aggregation py0 [main_bob, main_alice, main_dan, main_eve] ''salary=median'' =
       Inr [\<lparr>res_operation = ''median'', res_column = ''salary'', res_value = PyFloat (Fin 5500)\<rparr>]"
proof -
  have m: "agg_median [Fin 4000, Fin 5000, Fin 5500, Fin 6000] = Inr (PyFloat (Fin 5500))"
    by (simp add: agg_median_def py_index_def float_sorted_def)
  have c: "core_apply_aggregation py0 [core_bob, core_alice, core_dan, core_eve] ''salary=median'' =
       Inr [\<lparr>res_operation = ''median'', res_column = ''salary'', res_value = PyFloat (Fin 5500)\<rparr>]"
    unfolding core_apply_aggregation_def
    by (simp add: split_salary_median core_AGGREGATIONS_def core_collect_salaries m del: core_collect.simps)
  have n: "main_apply_aggregation py0 [main_bob, main_alice, main_dan, main_eve] ''salary=median'' =
       Inr [\<lparr>res_operation = ''median'', res_column = ''salary'', res_value = PyFloat (Fin 5500)\<rparr>]"
    unfolding main_apply_aggregation_def
    by (simp add: split_salary_median main_AGGREGATIONS_def main_collect_salaries m del: main_collect.simps)
  show ?thesis using m c n by simp
qed

lemma map_insort_key: "map f (insort_key f x ys) = insort (f x) (map f ys)"
  by (induction ys) auto

lemma map_sort_key: "map f (sort_key f xs) = sort (map f xs)"
  by (induction xs) (simp_all add: sort_key_simps map_insort_key)

lemma float_sorted_numbers:
  assumes "list_all is_Fin x"
  shows "float_sorted (\<lambda>v. v) x = map Fin (sort (map fin_of x))"
proof -
  have e: "float_sorted (\<lambda>v. v) x = sort_key fin_of x"
    using assms by (simp add: float_sorted_def)
  have "\<forall>v \<in> set (sort_key fin_of x). is_Fin v" using assms by (simp add: list_all_iff)
  then have "map (\<lambda>v. Fin (fin_of v)) (sort_key fin_of x) = sort_key fin_of x"
    by (intro map_idI) simp
  then have "map Fin (map fin_of (sort_key fin_of x)) = sort_key fin_of x"
    by (simp add: comp_def)
  then show ?thesis unfolding e map_sort_key by simp
qed

lemma agg_median_nth:
  assumes "x \<noteq> []" and "list_all is_Fin x"
  shows "agg_median x = Inr (PyFloat (Fin (sort (map fin_of x) ! (length x div 2))))"
proof -
  have "length x div 2 < length x" using assms(1) by simp
  then show ?thesis
    using assms(1) by (simp add: agg_median_def py_index_def float_sorted_numbers[OF assms(2)])
qed

text \<open>
  Claim C2, as amended. For values that are not empty and hold no not-a-number,
  \<^verbatim>\<open>median\<close> returns the element at index \<open>k\<close> of the values in ascending order, where
  the number of values is \<open>2 * k + 1\<close> (the middle element) or \<open>2 * k\<close> (the upper one
  of the two middle elements); \<^verbatim>\<open>apply_aggregation\<close> of either file returns that element
  in its record.
\<close>

theorem median_upper_middle:
  assumes "x \<noteq> []" and "list_all is_Fin x"
  shows "\<exists>k. (length x = 2 * k + 1 \<or> (length x = 2 * k \<and> 0 < k))
           \<and> agg_median x = Inr (PyFloat (Fin (sort (map fin_of x) ! k)))
           \<and> (split_spec condition = Inr (column, ''median'') \<and> core_collect py column data = Inr x
                \<longrightarrow> core_apply_aggregation py data condition =
                      Inr [\<lparr>res_operation = ''median'', res_column = column,
                            res_value = PyFloat (Fin (sort (map fin_of x) ! k))\<rparr>])
           \<and> (split_spec condition = Inr (column, ''median'') \<and> main_collect py column mdata = Inr x
                \<longrightarrow> main_apply_aggregation py mdata condition =
                      Inr [\<lparr>res_operation = ''median'', res_column = column,
                            res_value = PyFloat (Fin (sort (map fin_of x) ! k))\<rparr>])"
proof -
  define k where "k = length x div 2"
  define m where "m = PyFloat (Fin (sort (map fin_of x) ! k))"
  have len: "0 < length x" using assms(1) by simp
  have k: "length x = 2 * k + 1 \<or> (length x = 2 * k \<and> 0 < k)"
    unfolding k_def using len by presburger
  have m: "agg_median x = Inr m"
    unfolding m_def k_def using assms by (rule agg_median_nth)
  have c: "core_apply_aggregation py data condition =
             Inr [\<lparr>res_operation = ''median'', res_column = column, res_value = m\<rparr>]"
    if "split_spec condition = Inr (column, ''median'') \<and> core_collect py column data = Inr x"
    unfolding core_apply_aggregation_def using that assms(1)
    by (simp add: core_AGGREGATIONS_def m)
  have n: "main_apply_aggregation py mdata condition =
             Inr [\<lparr>res_operation = ''median'', res_column = column, res_value = m\<rparr>]"
    if "split_spec condition = Inr (column, ''median'') \<and> main_collect py column mdata = Inr x"
    unfolding main_apply_aggregation_def using that
    by (simp add: main_AGGREGATIONS_def m)
  show ?thesis using k m c n unfolding m_def by (intro exI[of _ k]) simp
qed

theorem median_upper_middle_witness:
  "[Fin 4000, Fin 5000, Fin 5500, Fin 6000] \<noteq> []
   \<and> list_all is_Fin [Fin 4000, Fin 5000, Fin 5500, Fin 6000]
   \<and> agg_median [Fin 4000, Fin 5000, Fin 5500, Fin 6000] =
       Inr (PyFloat (Fin ([4000, 5000, 5500, 6000] ! 2)))
   \<and> agg_median [Fin 4000, Fin 5000, Fin 6000] = Inr (PyFloat (Fin ([4000, 5000, 6000] ! 1)))"
proof -
  have s4: "sort (map fin_of [Fin 4000, Fin 5000, Fin 5500, Fin 6000]) = [4000, 5000, 5500, 6000]"
    by simp
  have s3: "sort (map fin_of [Fin 4000, Fin 5000, Fin 6000]) = [4000, 5000, 6000]" by simp
  have f4: "list_all is_Fin [Fin 4000, Fin 5000, Fin 5500, Fin 6000]" by simp
  have f3: "list_all is_Fin [Fin 4000, Fin 5000, Fin 6000]" by simp
  from median_upper_middle[OF _ f4]
  obtain k where k: "length [Fin 4000, Fin 5000, Fin 5500, Fin 6000] = 2 * k + 1
        \<or> (length [Fin 4000, Fin 5000, Fin 5500, Fin 6000] = 2 * k \<and> 0 < k)"
    and m: "agg_median [Fin 4000, Fin 5000, Fin 5500, Fin 6000] =
        Inr (PyFloat (Fin (sort (map fin_of [Fin 4000, Fin 5000, Fin 5500, Fin 6000]) ! k)))"
    by blast
  from k have "k = 2" by simp presburger
  with m s4 have a: "agg_median [Fin 4000, Fin 5000, Fin 5500, Fin 6000] =
       Inr (PyFloat (Fin ([4000, 5000, 5500, 6000] ! 2)))"
    by simp
  from median_upper_middle[OF _ f3]
  obtain j where j: "length [Fin 4000, Fin 5000, Fin 6000] = 2 * j + 1
        \<or> (length [Fin 4000, Fin 5000, Fin 6000] = 2 * j \<and> 0 < j)"
    and n: "agg_median [Fin 4000, Fin 5000, Fin 6000] =
        Inr (PyFloat (Fin (sort (map fin_of [Fin 4000, Fin 5000, Fin 6000]) ! j)))"
    by blast
  from j have "j = 1" by simp presburger
  with n s3 have b: "agg_median [Fin 4000, Fin 5000, Fin 6000] = Inr (PyFloat (Fin ([4000, 5000, 6000] ! 1)))"
    by simp
  show ?thesis using a b by simp
qed

text \<open>With a not-a-number among the values the element returned need not be a middle one.\<close>

lemma median_with_nan:
  "agg_median [Fin 3, NaN, Fin 1] = Inr (PyFloat NaN)"
  "agg_median [Fin 5, NaN, Fin 1, Fin 2] = Inr (PyFloat (Fin 1))"
  by (simp_all add: agg_median_def py_index_def float_sorted_def list_sort_def binary_insert_def
      bin_pos.simps)

subsection \<open>Ordering\<close>

lemma keys_of_total: "keys_of (\<lambda>x. Inr (g x)) xs = Inr (map g xs)"
  by (induction xs) auto

lemma keys_of_Inr:
  "keys_of k xs = Inr cs \<Longrightarrow> cs = map (\<lambda>x. projr (k x)) xs \<and> (\<forall>x \<in> set xs. k x = Inr (projr (k x)))"
proof (induction xs arbitrary: cs)
  case Nil
  then show ?case by simp
next
  case (Cons x xs)
  from Cons.prems obtain c cs' where c: "k x = Inr c" and r: "keys_of k xs = Inr cs'" and e: "cs = c # cs'"
    by (auto split: sum.splits simp: map_sum_def)
  from Cons.IH[OF r] c e show ?case by simp
qed

lemma keys_of_Inl: "keys_of k xs = Inl e \<Longrightarrow> \<exists>x \<in> set xs. k x = Inl e"
  by (induction xs) (auto split: sum.splits simp: map_sum_def)

lemma keys_of_all_Inr:
  "\<forall>x \<in> set xs. k x = Inr (g x) \<Longrightarrow> keys_of k xs = Inr (map g xs)"
  by (induction xs) auto

lemma insort_key_decorated:
  "\<forall>p \<in> set ys. fst p = g (snd p) \<Longrightarrow>
     map snd (insort_key (\<lambda>p. h (fst p)) (g x, x) ys) = insort_key (\<lambda>x. h (g x)) x (map snd ys)"
  by (induction ys) auto

lemma sort_key_decorated:
  "map snd (sort_key (\<lambda>p. h (fst p)) (zip (map g xs) xs)) = sort_key (\<lambda>x. h (g x)) xs"
proof (induction xs)
  case Nil
  then show ?case by simp
next
  case (Cons x xs)
  have "\<forall>p \<in> set (sort_key (\<lambda>p. h (fst p)) (zip (map g xs) xs)). fst p = g (snd p)"
    by (auto simp: set_zip)
  from insort_key_decorated[OF this, of h x] Cons.IH show ?case
    by (simp add: sort_key_simps)
qed

lemma run_asc_prefix: "run_asc lt prev xs @ drop (length (run_asc lt prev xs)) xs = xs"
  by (induction xs arbitrary: prev) auto

lemma run_desc_prefix: "run_desc lt prev xs @ drop (length (run_desc lt prev xs)) xs = xs"
  by (induction xs arbitrary: prev) auto

lemma mset_count_run: "count_run lt xs = (run, rest) \<Longrightarrow> mset run + mset rest = mset xs"
proof (induction lt xs rule: count_run.induct)
  case (3 lt x y zs)
  have a: "mset (run_asc lt y zs) + mset (drop (length (run_asc lt y zs)) zs) = mset zs"
    using run_asc_prefix[of lt y zs] by (metis mset_append)
  have d: "mset (run_desc lt y zs) + mset (drop (length (run_desc lt y zs)) zs) = mset zs"
    using run_desc_prefix[of lt y zs] by (metis mset_append)
  show ?case
  proof (cases "lt y x")
    case True
    with 3 have "run = rev (x # y # run_desc lt y zs)" "rest = drop (length (run_desc lt y zs)) zs"
      by auto
    then show ?thesis using d by (simp add: ac_simps)
  next
    case False
    with 3 have "run = x # y # run_asc lt y zs" "rest = drop (length (run_asc lt y zs)) zs"
      by auto
    then show ?thesis using a by (simp add: ac_simps)
  qed
qed auto

lemma mset_binary_insert: "mset (binary_insert lt ys p) = add_mset p (mset ys)"
proof -
  have "mset (take n ys) + mset (drop n ys) = mset ys" for n
    by (metis append_take_drop_id mset_append)
  then show ?thesis by (simp add: binary_insert_def)
qed

lemma mset_foldl_binary_insert:
  "mset (foldl (binary_insert lt) run rest) = mset run + mset rest"
  by (induction rest arbitrary: run) (simp_all add: mset_binary_insert)

lemma mset_list_sort: "mset (list_sort lt xs) = mset xs"
proof -
  obtain run rest where c: "count_run lt xs = (run, rest)" by (cases "count_run lt xs")
  then show ?thesis
    using mset_count_run[OF c] by (simp add: list_sort_def mset_foldl_binary_insert)
qed

lemma mset_float_sorted: "mset (float_sorted k xs) = mset xs"
  by (simp add: float_sorted_def mset_list_sort)

lemma float_sorted_decorated:
  assumes "\<forall>x \<in> set xs. is_Fin (num_of (g x))"
  shows "map snd (float_sorted (\<lambda>p. num_of (fst p)) (zip (map g xs) xs)) =
           sort_key (\<lambda>x. fin_of (num_of (g x))) xs"
proof -
  have "list_all (\<lambda>p. is_Fin (num_of (fst p))) (zip (map g xs) xs)"
    using assms by (auto simp: list_all_iff set_zip)
  then have "float_sorted (\<lambda>p. num_of (fst p)) (zip (map g xs) xs) =
        sort_key (\<lambda>p. fin_of (num_of (fst p))) (zip (map g xs) xs)"
    by (simp add: float_sorted_def)
  then show ?thesis
    using sort_key_decorated[of "\<lambda>c. fin_of (num_of c)" g xs] by simp
qed

lemma mset_float_sorted_decorated:
  "mset (map snd (float_sorted (\<lambda>p. num_of (fst p)) (zip (map g xs) xs))) = mset xs"
proof -
  have z: "map snd (zip (map g xs) xs) = xs" by (rule map_snd_zip) simp
  show ?thesis by (metis mset_map mset_float_sorted z)
qed

lemma py_sorted_total_key:
  "py_sorted (\<lambda>x. Inr (g x)) xs =
     (if list_all is_Num (map g xs)
      then Inr (map snd (float_sorted (\<lambda>p. num_of (fst p)) (zip (map g xs) xs)))
      else if list_all is_Text (map g xs) then Inr (sort_key (\<lambda>x. text_of (g x)) xs)
      else Inl TypeError)"
  by (simp add: py_sorted_def keys_of_total sort_key_decorated)

lemma py_sorted_cong:
  "\<forall>x \<in> set xs. k x = Inr (g x) \<Longrightarrow> py_sorted k xs = py_sorted (\<lambda>x. Inr (g x)) xs"
  unfolding py_sorted_def by (simp only: keys_of_total keys_of_all_Inr)

lemma py_sorted_key_error:
  "py_sorted k xs = Inl e \<Longrightarrow> e \<noteq> TypeError \<Longrightarrow> \<exists>x \<in> set xs. k x = Inl e"
  by (auto simp: py_sorted_def split: sum.splits if_splits dest: keys_of_Inl)

lemma sort_key_stable_inj:
  fixes h :: "'a \<Rightarrow> 'b::linorder"
  assumes "\<forall>x \<in> set xs. \<forall>y \<in> set xs. h x = h y \<longleftrightarrow> g x = g y"
  shows "filter (\<lambda>y. g y = k) (sort_key h xs) = filter (\<lambda>y. g y = k) xs"
proof (cases "\<exists>z \<in> set xs. g z = k")
  case True
  then obtain z where z: "z \<in> set xs" "g z = k" by blast
  have a: "filter (\<lambda>y. g y = k) (sort_key h xs) = filter (\<lambda>y. h y = h z) (sort_key h xs)"
    by (rule filter_cong[OF refl]) (use assms z in auto)
  have b: "filter (\<lambda>y. g y = k) xs = filter (\<lambda>y. h y = h z) xs"
    by (rule filter_cong[OF refl]) (use assms z in auto)
  show ?thesis unfolding a b by (rule sort_key_stable)
next
  case False
  then have "filter (\<lambda>y. g y = k) (sort_key h xs) = []" "filter (\<lambda>y. g y = k) xs = []"
    by (auto simp: filter_empty_conv)
  then show ?thesis by simp
qed

lemma sort_orders_cases:
  "map_of SORT_ORDERS order = Some f \<Longrightarrow> f = (\<lambda>x. x) \<or> f = desc_key"
  by (auto simp: SORT_ORDERS_def split: if_splits)

lemma sort_orders_lookup:
  "order \<in> set (map fst SORT_ORDERS) \<Longrightarrow> \<exists>f. map_of SORT_ORDERS order = Some f"
  by (auto simp: SORT_ORDERS_def)

lemma desc_key_tags [simp]: "is_Num (desc_key c) = is_Num c" "is_Text (desc_key c) = is_Text c"
  by (cases c; simp)+

lemma flt_neg_fin [simp]: "is_Fin (flt_neg x) = is_Fin x"
  by (cases x) simp_all

lemma direction_tags:
  "f = (\<lambda>x. x) \<or> f = desc_key \<Longrightarrow> is_Num (f c) = is_Num c \<and> is_Text (f c) = is_Text c"
  by auto

lemma direction_fin:
  "f = (\<lambda>x. x) \<or> f = desc_key \<Longrightarrow> is_Num c \<Longrightarrow> is_Fin (num_of (f c)) = is_Fin (num_of c)"
  by (cases c) auto

lemma direction_num_inj:
  "f = (\<lambda>x. x) \<or> f = desc_key \<Longrightarrow> is_Num a \<Longrightarrow> is_Num b \<Longrightarrow>
     is_Fin (num_of a) \<Longrightarrow> is_Fin (num_of b) \<Longrightarrow>
     fin_of (num_of (f a)) = fin_of (num_of (f b)) \<longleftrightarrow> a = b"
  by (cases a; cases b; cases "num_of a"; cases "num_of b"; auto)

lemma direction_text_inj:
  "f = (\<lambda>x. x) \<or> f = desc_key \<Longrightarrow> is_Text a \<Longrightarrow> is_Text b \<Longrightarrow>
     text_of (f a) = text_of (f b) \<longleftrightarrow> a = b"
  by (cases a; cases b; auto)

lemma not_nan_fin: "is_Num c \<Longrightarrow> c \<noteq> Num NaN \<Longrightarrow> is_Fin (num_of c)"
  by (cases c; cases "num_of c"; auto)

text \<open>
  \<^verbatim>\<open>sorted\<close> with a key that never raises and one of the two directions: it returns a
  permutation when the keys are all floats or all strings, a stable one when no key is
  not-a-number, and raises \<open>TypeError\<close> otherwise.
\<close>

lemma py_sorted_direction:
  assumes f: "f = (\<lambda>x. x) \<or> f = desc_key"
  shows "(list_all is_Num (map g xs) \<or> list_all is_Text (map g xs) \<longrightarrow>
           (\<exists>out. py_sorted (\<lambda>x. Inr (f (g x))) xs = Inr out \<and> mset out = mset xs
              \<and> ((\<forall>x \<in> set xs. g x \<noteq> Num NaN) \<longrightarrow>
                   (\<forall>k. filter (\<lambda>y. g y = k) out = filter (\<lambda>y. g y = k) xs))))
       \<and> (\<not> (list_all is_Num (map g xs) \<or> list_all is_Text (map g xs)) \<longrightarrow>
           py_sorted (\<lambda>x. Inr (f (g x))) xs = Inl TypeError)"
proof -
  have tags: "list_all is_Num (map (\<lambda>x. f (g x)) xs) = list_all is_Num (map g xs)"
    "list_all is_Text (map (\<lambda>x. f (g x)) xs) = list_all is_Text (map g xs)"
    using direction_tags[OF f] by (simp_all add: list_all_iff)
  note e = py_sorted_total_key[of "\<lambda>x. f (g x)" xs, unfolded tags]
  show ?thesis
  proof (intro conjI impI)
    assume u: "list_all is_Num (map g xs) \<or> list_all is_Text (map g xs)"
    show "\<exists>out. py_sorted (\<lambda>x. Inr (f (g x))) xs = Inr out \<and> mset out = mset xs
              \<and> ((\<forall>x \<in> set xs. g x \<noteq> Num NaN) \<longrightarrow>
                   (\<forall>k. filter (\<lambda>y. g y = k) out = filter (\<lambda>y. g y = k) xs))"
    proof (cases "list_all is_Num (map g xs)")
      case True
      define out where "out = map snd (float_sorted (\<lambda>p. num_of (fst p)) (zip (map (\<lambda>x. f (g x)) xs) xs))"
      have r: "py_sorted (\<lambda>x. Inr (f (g x))) xs = Inr out"
        using e True by (simp add: out_def)
      have m: "mset out = mset xs"
        unfolding out_def by (rule mset_float_sorted_decorated)
      have st: "\<forall>k. filter (\<lambda>y. g y = k) out = filter (\<lambda>y. g y = k) xs"
        if n: "\<forall>x \<in> set xs. g x \<noteq> Num NaN"
      proof -
        have num: "\<forall>x \<in> set xs. is_Num (g x)" using True by (simp add: list_all_iff)
        have fin: "\<forall>x \<in> set xs. is_Fin (num_of (g x))"
          using num n not_nan_fin by blast
        then have "\<forall>x \<in> set xs. is_Fin (num_of (f (g x)))"
          using direction_fin[OF f] num by blast
        from float_sorted_decorated[of xs "\<lambda>x. f (g x)", OF this]
        have o: "out = sort_key (\<lambda>x. fin_of (num_of (f (g x)))) xs" by (simp add: out_def)
        have inj: "\<forall>x \<in> set xs. \<forall>y \<in> set xs.
            fin_of (num_of (f (g x))) = fin_of (num_of (f (g y))) \<longleftrightarrow> g x = g y"
          using direction_num_inj[OF f] num fin by blast
        show ?thesis unfolding o using sort_key_stable_inj[OF inj] by blast
      qed
      show ?thesis using r m st by blast
    next
      case False
      then have t: "list_all is_Text (map g xs)" using u by simp
      then have inj: "\<forall>x \<in> set xs. \<forall>y \<in> set xs. text_of (f (g x)) = text_of (f (g y)) \<longleftrightarrow> g x = g y"
        using direction_text_inj[OF f] by (simp add: list_all_iff)
      have "py_sorted (\<lambda>x. Inr (f (g x))) xs = Inr (sort_key (\<lambda>x. text_of (f (g x))) xs)"
        using e False t by simp
      moreover have "\<forall>k. filter (\<lambda>y. g y = k) (sort_key (\<lambda>x. text_of (f (g x))) xs) = filter (\<lambda>y. g y = k) xs"
        using sort_key_stable_inj[OF inj] by blast
      ultimately show ?thesis by simp
    qed
  next
    assume "\<not> (list_all is_Num (map g xs) \<or> list_all is_Text (map g xs))"
    then show "py_sorted (\<lambda>x. Inr (f (g x))) xs = Inl TypeError" using e by simp
  qed
qed

lemma core_key2_text: "list_all is_Text (map (core_key2 py column) data)"
  by (simp add: list_all_iff core_key2_def)

lemma core_key2_not_nan: "\<forall>r \<in> set data. core_key2 py column r \<noteq> Num NaN"
  by (simp add: core_key2_def)

lemma core_apply_order_by_unfold:
  assumes "split_spec condition = Inr (column, order)" and "map_of SORT_ORDERS order = Some f"
  shows "core_apply_order_by py data condition =
     (case py_sorted (\<lambda>x. Inr (f (core_key1 column x))) data of
        Inr out \<Rightarrow> Inr out
      | Inl e \<Rightarrow> (if e = TypeError then py_sorted (\<lambda>x. Inr (f (core_key2 py column x))) data else Inl e))"
  unfolding core_apply_order_by_def by (simp add: assms)

lemma core_order_by_result:
  assumes s: "split_spec condition = Inr (column, order)"
    and o: "order \<in> set (map fst SORT_ORDERS)"
  shows "\<exists>out. core_apply_order_by py data condition = Inr out \<and> mset out = mset data
     \<and> ((\<forall>r \<in> set data. core_key1 column r \<noteq> Num NaN) \<longrightarrow>
         (if list_all is_Num (map (core_key1 column) data) \<or> list_all is_Text (map (core_key1 column) data)
          then \<forall>k. filter (\<lambda>r. core_key1 column r = k) out = filter (\<lambda>r. core_key1 column r = k) data
          else \<forall>k. filter (\<lambda>r. core_key2 py column r = k) out = filter (\<lambda>r. core_key2 py column r = k) data))"
proof -
  from sort_orders_lookup[OF o] obtain f where f: "map_of SORT_ORDERS order = Some f" by (rule exE)
  have d: "f = (\<lambda>x. x) \<or> f = desc_key" using f by (rule sort_orders_cases)
  note u = core_apply_order_by_unfold[OF s f, of py data]
  note p1 = py_sorted_direction[OF d, of "core_key1 column" data]
  note p2 = py_sorted_direction[OF d, of "core_key2 py column" data]
  show ?thesis
  proof (cases "list_all is_Num (map (core_key1 column) data) \<or> list_all is_Text (map (core_key1 column) data)")
    case True
    with p1 obtain out where "py_sorted (\<lambda>x. Inr (f (core_key1 column x))) data = Inr out"
      "mset out = mset data"
      "(\<forall>r \<in> set data. core_key1 column r \<noteq> Num NaN) \<longrightarrow>
         (\<forall>k. filter (\<lambda>r. core_key1 column r = k) out = filter (\<lambda>r. core_key1 column r = k) data)"
      by blast
    then show ?thesis using True u by simp
  next
    case False
    with p1 have t: "py_sorted (\<lambda>x. Inr (f (core_key1 column x))) data = Inl TypeError" by blast
    from p2 core_key2_text[of py column data] core_key2_not_nan[of data py column]
    obtain out where "py_sorted (\<lambda>x. Inr (f (core_key2 py column x))) data = Inr out"
      "mset out = mset data"
      "\<forall>k. filter (\<lambda>r. core_key2 py column r = k) out = filter (\<lambda>r. core_key2 py column r = k) data"
      by blast
    then show ?thesis using False u t by simp
  qed
qed

text \<open>
  Claim C10. In \<^verbatim>\<open>core.py\<close>, \<^verbatim>\<open>apply_order_by\<close> with a well-formed specification always
  returns, and its output is a permutation of the input. A row without the sort column
  raises nothing: its key is the number 0 in the first attempt and the empty string in
  the second one, and the row is in the output.
\<close>

theorem core_order_by_total:
  assumes "split_spec condition = Inr (column, order)"
    and "order \<in> set (map fst SORT_ORDERS)"
  shows "\<exists>out. core_apply_order_by py data condition = Inr out \<and> mset out = mset data
     \<and> (\<forall>row \<in> set data. row column = None \<longrightarrow>
           row \<in> set out \<and> core_key1 column row = Num (Fin 0) \<and> core_key2 py column row = Text [])"
proof -
  from core_order_by_result[OF assms, of py data]
  obtain out where o: "core_apply_order_by py data condition = Inr out" "mset out = mset data"
    by blast
  from o(2) have "set out = set data" by (rule mset_eq_setD)
  then have "\<forall>row \<in> set data. row column = None \<longrightarrow>
           row \<in> set out \<and> core_key1 column row = Num (Fin 0) \<and> core_key2 py column row = Text []"
    by (simp add: core_key1_def core_key2_def)
  with o show ?thesis by blast
qed

lemma main_apply_order_by_unfold:
  assumes "split_spec condition = Inr (column, order)" and "map_of SORT_ORDERS order = Some f"
  shows "main_apply_order_by py data condition =
     (case py_sorted (\<lambda>x. map_sum id f (main_key1 py column x)) data of
        Inr out \<Rightarrow> Inr out
      | Inl e \<Rightarrow> (if e = FloatValueError
                  then py_sorted (\<lambda>x. map_sum id f (main_key2 column x)) data else Inl e))"
  unfolding main_apply_order_by_def by (simp add: assms)

lemma main_order_by_spec:
  "main_apply_order_by py data condition = Inr out \<Longrightarrow>
     \<exists>column order f. split_spec condition = Inr (column, order) \<and> map_of SORT_ORDERS order = Some f"
  unfolding main_apply_order_by_def by (auto split: sum.splits option.splits)

lemma py_sorted_partial:
  assumes d: "f = (\<lambda>x. x) \<or> f = desc_key"
    and r: "py_sorted (\<lambda>x. map_sum id f (k x)) xs = Inr out"
  shows "(\<forall>x \<in> set xs. \<exists>c. k x = Inr c) \<and> mset out = mset xs
     \<and> ((\<forall>x \<in> set xs. k x \<noteq> Inr (Num NaN)) \<longrightarrow>
         (\<forall>c. filter (\<lambda>y. k y = Inr c) out = filter (\<lambda>y. k y = Inr c) xs))"
proof -
  from r obtain cs where cs: "keys_of (\<lambda>x. map_sum id f (k x)) xs = Inr cs"
    by (auto simp: py_sorted_def split: sum.splits)
  from keys_of_Inr[OF cs] have a: "\<forall>x \<in> set xs. \<exists>c. map_sum id f (k x) = Inr c" by metis
  have all: "\<forall>x \<in> set xs. \<exists>c. k x = Inr c"
  proof
    fix x assume "x \<in> set xs"
    with a obtain c where "map_sum id f (k x) = Inr c" by blast
    then show "\<exists>c. k x = Inr c" by (cases "k x") auto
  qed
  define g where "g = (\<lambda>x. projr (k x))"
  have kg: "\<forall>x \<in> set xs. k x = Inr (g x)" using all unfolding g_def by auto
  then have "\<forall>x \<in> set xs. map_sum id f (k x) = Inr (f (g x))" by simp
  from py_sorted_cong[OF this] r have r': "py_sorted (\<lambda>x. Inr (f (g x))) xs = Inr out" by simp
  note p = py_sorted_direction[OF d, of g xs]
  have u: "list_all is_Num (map g xs) \<or> list_all is_Text (map g xs)"
    using p r' by (cases "list_all is_Num (map g xs) \<or> list_all is_Text (map g xs)") auto
  with p r' have m: "mset out = mset xs"
    and st0: "(\<forall>x \<in> set xs. g x \<noteq> Num NaN) \<longrightarrow>
       (\<forall>c. filter (\<lambda>y. g y = c) out = filter (\<lambda>y. g y = c) xs)" by auto
  from m have so: "set out = set xs" by (rule mset_eq_setD)
  have "filter (\<lambda>y. k y = Inr c) out = filter (\<lambda>y. k y = Inr c) xs"
    if n: "\<forall>x \<in> set xs. k x \<noteq> Inr (Num NaN)" for c
  proof -
    have "\<forall>x \<in> set xs. g x \<noteq> Num NaN" using n kg by auto
    with st0 have st: "\<forall>c. filter (\<lambda>y. g y = c) out = filter (\<lambda>y. g y = c) xs" by blast
    have "filter (\<lambda>y. k y = Inr c) out = filter (\<lambda>y. g y = c) out"
      by (rule filter_cong[OF refl]) (use kg so in auto)
    moreover have "filter (\<lambda>y. k y = Inr c) xs = filter (\<lambda>y. g y = c) xs"
      by (rule filter_cong[OF refl]) (use kg in auto)
    ultimately show ?thesis using st by simp
  qed
  then show ?thesis using all m by blast
qed

lemma main_key2_not_nan: "\<forall>r \<in> set data. main_key2 column r \<noteq> Inr (Num NaN)"
  by (simp add: main_key2_def split: option.splits)

lemma main_order_by_result:
  assumes s: "split_spec condition = Inr (column, order)"
    and r: "main_apply_order_by py data condition = Inr out"
  shows "mset out = mset data \<and>
    ((\<forall>r \<in> set data. main_key1 py column r \<noteq> Inr (Num NaN)) \<longrightarrow>
      (if \<forall>r \<in> set data. \<exists>c. main_key1 py column r = Inr c
       then \<forall>c. filter (\<lambda>r. main_key1 py column r = Inr c) out = filter (\<lambda>r. main_key1 py column r = Inr c) data
       else \<forall>c. filter (\<lambda>r. main_key2 column r = Inr c) out = filter (\<lambda>r. main_key2 column r = Inr c) data))"
proof -
  from main_order_by_spec[OF r] s obtain f where f: "map_of SORT_ORDERS order = Some f" by auto
  have d: "f = (\<lambda>x. x) \<or> f = desc_key" using f by (rule sort_orders_cases)
  note u = main_apply_order_by_unfold[OF s f, of py data]
  show ?thesis
  proof (cases "py_sorted (\<lambda>x. map_sum id f (main_key1 py column x)) data")
    case (Inr out')
    then have "out' = out" using u r by simp
    with Inr py_sorted_partial[OF d, of "main_key1 py column" data out] show ?thesis by simp
  next
    case (Inl e)
    then have e: "e = FloatValueError" and r2: "py_sorted (\<lambda>x. map_sum id f (main_key2 column x)) data = Inr out"
      using u r by (auto split: if_splits)
    from py_sorted_key_error[OF Inl] e obtain x where x: "x \<in> set data"
      "map_sum id f (main_key1 py column x) = Inl FloatValueError" by auto
    then have "main_key1 py column x = Inl FloatValueError" by (cases "main_key1 py column x") auto
    then have "\<not> (\<exists>c. main_key1 py column x = Inr c)" by simp
    then have n: "\<not> (\<forall>r \<in> set data. \<exists>c. main_key1 py column r = Inr c)" using x(1) by blast
    from py_sorted_partial[OF d r2] main_key2_not_nan[of data column]
    have a: "mset out = mset data"
      and b: "\<forall>c. filter (\<lambda>r. main_key2 column r = Inr c) out = filter (\<lambda>r. main_key2 column r = Inr c) data"
      by blast+
    have "(if \<forall>r \<in> set data. \<exists>c. main_key1 py column r = Inr c
       then \<forall>c. filter (\<lambda>r. main_key1 py column r = Inr c) out = filter (\<lambda>r. main_key1 py column r = Inr c) data
       else \<forall>c. filter (\<lambda>r. main_key2 column r = Inr c) out = filter (\<lambda>r. main_key2 column r = Inr c) data)
       = (\<forall>c. filter (\<lambda>r. main_key2 column r = Inr c) out = filter (\<lambda>r. main_key2 column r = Inr c) data)"
      using n by (rule if_not_P)
    then show ?thesis using a b by blast
  qed
qed

lemma main_key1_Inr:
  "main_key1 py column x = Inr c \<Longrightarrow> c = Num (the (float_of py (the (x column))))"
  by (auto simp: main_key1_def split: option.splits)

lemma main_order_by_returns:
  assumes s: "split_spec condition = Inr (column, order)"
    and o: "order \<in> set (map fst SORT_ORDERS)"
    and c: "\<forall>r \<in> set data. r column \<noteq> None"
  shows "\<exists>out. main_apply_order_by py data condition = Inr out"
proof -
  from sort_orders_lookup[OF o] obtain f where f: "map_of SORT_ORDERS order = Some f" by (rule exE)
  have d: "f = (\<lambda>x. x) \<or> f = desc_key" using f by (rule sort_orders_cases)
  note u = main_apply_order_by_unfold[OF s f, of py data]
  define g2 where "g2 = (\<lambda>x. Text (the (x column)))"
  have k2: "\<forall>x \<in> set data. map_sum id f (main_key2 column x) = Inr (f (g2 x))"
    using c by (auto simp: main_key2_def g2_def)
  have "list_all is_Text (map g2 data)" by (simp add: list_all_iff g2_def)
  with py_sorted_direction[OF d, of g2 data] obtain out2 where
    "py_sorted (\<lambda>x. Inr (f (g2 x))) data = Inr out2" by blast
  then have fb: "py_sorted (\<lambda>x. map_sum id f (main_key2 column x)) data = Inr out2"
    using py_sorted_cong[OF k2] by simp
  show ?thesis
  proof (cases "keys_of (\<lambda>x. map_sum id f (main_key1 py column x)) data")
    case (Inr cs)
    define g1 where "g1 = (\<lambda>x. Num (the (float_of py (the (x column)))))"
    from keys_of_Inr[OF Inr] have a: "\<forall>x \<in> set data. \<exists>c. map_sum id f (main_key1 py column x) = Inr c"
      by metis
    have "map_sum id f (main_key1 py column x) = Inr (f (g1 x))" if "x \<in> set data" for x
    proof -
      from that a obtain c where "map_sum id f (main_key1 py column x) = Inr c" by blast
      then obtain c' where "main_key1 py column x = Inr c'" by (cases "main_key1 py column x") auto
      then show ?thesis using main_key1_Inr[of py column x c'] by (simp add: g1_def)
    qed
    then have "\<forall>x \<in> set data. map_sum id f (main_key1 py column x) = Inr (f (g1 x))" by blast
    from py_sorted_cong[OF this]
    have e: "py_sorted (\<lambda>x. map_sum id f (main_key1 py column x)) data =
             py_sorted (\<lambda>x. Inr (f (g1 x))) data" .
    have "list_all is_Num (map g1 data)" by (simp add: list_all_iff g1_def)
    with py_sorted_direction[OF d, of g1 data] obtain out1 where
      "py_sorted (\<lambda>x. Inr (f (g1 x))) data = Inr out1" by blast
    then show ?thesis using u e by simp
  next
    case (Inl e)
    then have p: "py_sorted (\<lambda>x. map_sum id f (main_key1 py column x)) data = Inl e"
      by (simp add: py_sorted_def)
    from keys_of_Inl[OF Inl] obtain x where x: "x \<in> set data"
      "map_sum id f (main_key1 py column x) = Inl e" by auto
    then have "main_key1 py column x = Inl e" by (cases "main_key1 py column x") auto
    then have "e = FloatValueError" using c x(1)
      by (auto simp: main_key1_def split: option.splits)
    then show ?thesis using u p fb by simp
  qed
qed

text \<open>
  With a not-a-number among the keys \<^verbatim>\<open>sorted\<close> is not stable: of the keys 1, 1, 2, 1,
  nan, 1, 1 the last two are equal, and both files return the row of the last one
  before the row of the one before it.
\<close>

theorem order_by_nan_counterexample:
  "core_apply_order_by py0
     [core_keyed 0 (Fin 1), core_keyed 1 (Fin 1), core_keyed 2 (Fin 2), core_keyed 3 (Fin 1),
      core_keyed 4 NaN, core_keyed 5 (Fin 1), core_keyed 6 (Fin 1)] ''k=asc'' =
   Inr [core_keyed 0 (Fin 1), core_keyed 1 (Fin 1), core_keyed 3 (Fin 1), core_keyed 6 (Fin 1),
        core_keyed 2 (Fin 2), core_keyed 4 NaN, core_keyed 5 (Fin 1)]
   \<and> core_key1 ''k'' (core_keyed 5 (Fin 1)) = Num (Fin 1)
   \<and> core_key1 ''k'' (core_keyed 6 (Fin 1)) = Num (Fin 1)
   \<and> core_keyed 5 (Fin 1) \<noteq> core_keyed 6 (Fin 1)
   \<and> main_apply_order_by py0
     [main_keyed ''0'' ''1'', main_keyed ''1'' ''1'', main_keyed ''2'' ''2'', main_keyed ''3'' ''1'',
      main_keyed ''4'' ''nan'', main_keyed ''5'' ''1'', main_keyed ''6'' ''1''] ''k=asc'' =
   Inr [main_keyed ''0'' ''1'', main_keyed ''1'' ''1'', main_keyed ''3'' ''1'', main_keyed ''6'' ''1'',
        main_keyed ''2'' ''2'', main_keyed ''4'' ''nan'', main_keyed ''5'' ''1'']
   \<and> main_key1 py0 ''k'' (main_keyed ''5'' ''1'') = Inr (Num (Fin 1))
   \<and> main_key1 py0 ''k'' (main_keyed ''6'' ''1'') = Inr (Num (Fin 1))
   \<and> main_keyed ''5'' ''1'' \<noteq> main_keyed ''6'' ''1''"
proof -
  have s: "split_spec ''k=asc'' = Inr (''k'', ''asc'')"
    by (simp add: split_spec_def split_once_def strip_def isspace_def)
  have a: "core_apply_order_by py0
     [core_keyed 0 (Fin 1), core_keyed 1 (Fin 1), core_keyed 2 (Fin 2), core_keyed 3 (Fin 1),
      core_keyed 4 NaN, core_keyed 5 (Fin 1), core_keyed 6 (Fin 1)] ''k=asc'' =
   Inr [core_keyed 0 (Fin 1), core_keyed 1 (Fin 1), core_keyed 3 (Fin 1), core_keyed 6 (Fin 1),
        core_keyed 2 (Fin 2), core_keyed 4 NaN, core_keyed 5 (Fin 1)]"
    by (simp add: core_apply_order_by_def s SORT_ORDERS_def py_sorted_def core_key1_def
      float_sorted_def list_sort_def binary_insert_def bin_pos.simps core_keyed_def)
  have b: "main_apply_order_by py0
     [main_keyed ''0'' ''1'', main_keyed ''1'' ''1'', main_keyed ''2'' ''2'', main_keyed ''3'' ''1'',
      main_keyed ''4'' ''nan'', main_keyed ''5'' ''1'', main_keyed ''6'' ''1''] ''k=asc'' =
   Inr [main_keyed ''0'' ''1'', main_keyed ''1'' ''1'', main_keyed ''3'' ''1'', main_keyed ''6'' ''1'',
        main_keyed ''2'' ''2'', main_keyed ''4'' ''nan'', main_keyed ''5'' ''1'']"
    by (simp add: main_apply_order_by_def s SORT_ORDERS_def py_sorted_def main_key1_def
      float_sorted_def list_sort_def binary_insert_def bin_pos.simps main_keyed_def
      py0_def dec_float_def is_digit_def)
  have c: "core_key1 ''k'' (core_keyed 5 (Fin 1)) = Num (Fin 1)"
    "core_key1 ''k'' (core_keyed 6 (Fin 1)) = Num (Fin 1)"
    by (simp_all add: core_key1_def core_keyed_def)
  have d: "main_key1 py0 ''k'' (main_keyed ''5'' ''1'') = Inr (Num (Fin 1))"
    "main_key1 py0 ''k'' (main_keyed ''6'' ''1'') = Inr (Num (Fin 1))"
    by (simp_all add: main_key1_def main_keyed_def py0_def dec_float_def is_digit_def)
  have "core_keyed 5 (Fin 1) ''id'' \<noteq> core_keyed 6 (Fin 1) ''id''"
    by (simp add: core_keyed_def)
  then have e: "core_keyed 5 (Fin 1) \<noteq> core_keyed 6 (Fin 1)" by metis
  have "main_keyed ''5'' ''1'' ''id'' \<noteq> main_keyed ''6'' ''1'' ''id''"
    by (simp add: main_keyed_def)
  then have g: "main_keyed ''5'' ''1'' \<noteq> main_keyed ''6'' ''1''" by metis
  show ?thesis using a b c d e g by simp
qed

text \<open>
  Claim C8, as amended. On a dataset whose sort keys hold no not-a-number, sorting is
  stable in both directions. The output of \<^verbatim>\<open>core.py\<close> holds, for every key, the rows
  with that key in the order of the input: the key is \<^verbatim>\<open>x.get(column, 0)\<close> when these
  are all numbers or all strings, and its text \<^verbatim>\<open>str(x.get(column, ''))\<close> otherwise. The
  same holds of every output of \<^verbatim>\<open>main.py\<close>, for the key \<^verbatim>\<open>float(x[column])\<close> when every
  cell parses and for the key \<^verbatim>\<open>x[column]\<close> otherwise, and \<^verbatim>\<open>main.py\<close> returns whenever
  every row has the column.
\<close>

theorem order_by_stable:
  assumes "split_spec condition = Inr (column, order)"
  shows
    "(order \<in> set (map fst SORT_ORDERS) \<and> (\<forall>r \<in> set data. core_key1 column r \<noteq> Num NaN) \<longrightarrow>
        (\<exists>out. core_apply_order_by py data condition = Inr out \<and> mset out = mset data
           \<and> (if list_all is_Num (map (core_key1 column) data)
                   \<or> list_all is_Text (map (core_key1 column) data)
              then \<forall>k. filter (\<lambda>r. core_key1 column r = k) out =
                        filter (\<lambda>r. core_key1 column r = k) data
              else \<forall>k. filter (\<lambda>r. core_key2 py column r = k) out =
                        filter (\<lambda>r. core_key2 py column r = k) data)))
     \<and> (\<forall>out. main_apply_order_by py mdata condition = Inr out
              \<and> (\<forall>r \<in> set mdata. main_key1 py column r \<noteq> Inr (Num NaN)) \<longrightarrow>
          mset out = mset mdata
          \<and> (if \<forall>r \<in> set mdata. \<exists>c. main_key1 py column r = Inr c
             then \<forall>c. filter (\<lambda>r. main_key1 py column r = Inr c) out =
                       filter (\<lambda>r. main_key1 py column r = Inr c) mdata
             else \<forall>c. filter (\<lambda>r. main_key2 column r = Inr c) out =
                       filter (\<lambda>r. main_key2 column r = Inr c) mdata))
     \<and> (order \<in> set (map fst SORT_ORDERS) \<and> (\<forall>r \<in> set mdata. r column \<noteq> None) \<longrightarrow>
          (\<exists>out. main_apply_order_by py mdata condition = Inr out))"
proof (intro conjI impI allI)
  assume "order \<in> set (map fst SORT_ORDERS) \<and> (\<forall>r \<in> set data. core_key1 column r \<noteq> Num NaN)"
  then show "\<exists>out. core_apply_order_by py data condition = Inr out \<and> mset out = mset data
           \<and> (if list_all is_Num (map (core_key1 column) data)
                   \<or> list_all is_Text (map (core_key1 column) data)
              then \<forall>k. filter (\<lambda>r. core_key1 column r = k) out =
                        filter (\<lambda>r. core_key1 column r = k) data
              else \<forall>k. filter (\<lambda>r. core_key2 py column r = k) out =
                        filter (\<lambda>r. core_key2 py column r = k) data)"
    using core_order_by_result[OF assms, of py data] by blast
next
  fix out
  assume a: "main_apply_order_by py mdata condition = Inr out
              \<and> (\<forall>r \<in> set mdata. main_key1 py column r \<noteq> Inr (Num NaN))"
  then have r: "main_apply_order_by py mdata condition = Inr out" by simp
  from main_order_by_result[OF assms r] a
  show "mset out = mset mdata" by blast
  from main_order_by_result[OF assms r] a
  show "if \<forall>r \<in> set mdata. \<exists>c. main_key1 py column r = Inr c
             then \<forall>c. filter (\<lambda>r. main_key1 py column r = Inr c) out =
                       filter (\<lambda>r. main_key1 py column r = Inr c) mdata
             else \<forall>c. filter (\<lambda>r. main_key2 column r = Inr c) out =
                       filter (\<lambda>r. main_key2 column r = Inr c) mdata" by blast
next
  assume "order \<in> set (map fst SORT_ORDERS) \<and> (\<forall>r \<in> set mdata. r column \<noteq> None)"
  then show "\<exists>out. main_apply_order_by py mdata condition = Inr out"
    using main_order_by_returns[OF assms, of mdata py] by blast
qed

lemma split_age_asc: "split_spec ''age=asc'' = Inr (''age'', ''asc'')"
  by (simp add: split_spec_def split_once_def strip_def isspace_def)
lemma split_age_desc: "split_spec ''age=desc'' = Inr (''age'', ''desc'')"
  by (simp add: split_spec_def split_once_def strip_def isspace_def)
lemma split_name_asc: "split_spec ''name=asc'' = Inr (''name'', ''asc'')"
  by (simp add: split_spec_def split_once_def strip_def isspace_def)
lemma split_name_desc: "split_spec ''name=desc'' = Inr (''name'', ''desc'')"
  by (simp add: split_spec_def split_once_def strip_def isspace_def)

lemma core_sort_missing_age:
  "core_apply_order_by py0 [core_bob, core_anon] ''age=asc'' = Inr [core_anon, core_bob]"
  by (simp add: core_apply_order_by_def split_age_asc SORT_ORDERS_def py_sorted_def
      core_key1_def float_sorted_def core_bob_def core_anon_def)

lemma core_sort_missing_name:
  "core_apply_order_by py0 [core_bob, core_noname] ''name=asc'' = Inr [core_noname, core_bob]"
  by (simp add: core_apply_order_by_def split_name_asc SORT_ORDERS_def py_sorted_def
      core_key1_def core_key2_def core_bob_def core_noname_def)

theorem core_order_by_total_witness:
  "split_spec ''age=asc'' = Inr (''age'', ''asc'')
   \<and> ''asc'' \<in> set (map fst SORT_ORDERS)
   \<and> core_anon ''age'' = None
   \<and> core_apply_order_by py0 [core_bob, core_anon] ''age=asc'' = Inr [core_anon, core_bob]
   \<and> core_anon \<in> set [core_anon, core_bob]
   \<and> core_key1 ''age'' core_anon = Num (Fin 0)
   \<and> core_key2 py0 ''age'' core_anon = Text []
   \<and> core_apply_order_by py0 [core_bob, core_noname] ''name=asc'' = Inr [core_noname, core_bob]"
proof -
  have o: "''asc'' \<in> set (map fst SORT_ORDERS)" by (simp add: SORT_ORDERS_def)
  have n: "core_anon ''age'' = None" by (simp add: core_anon_def)
  from core_order_by_total[OF split_age_asc o, of py0 "[core_bob, core_anon]"]
  obtain out where out: "core_apply_order_by py0 [core_bob, core_anon] ''age=asc'' = Inr out"
    and d: "\<forall>row \<in> set [core_bob, core_anon]. row ''age'' = None \<longrightarrow>
           row \<in> set out \<and> core_key1 ''age'' row = Num (Fin 0) \<and> core_key2 py0 ''age'' row = Text []"
    by blast
  from out have e: "out = [core_anon, core_bob]" by (simp add: core_sort_missing_age)
  from d n have "core_anon \<in> set out \<and> core_key1 ''age'' core_anon = Num (Fin 0)
      \<and> core_key2 py0 ''age'' core_anon = Text []" by simp
  then show ?thesis
    using e o n split_age_asc core_sort_missing_age core_sort_missing_name by simp
qed

lemma core_sort_ties:
  "core_apply_order_by py0 [core_alice, core_bob, core_dan] ''age=desc'' =
     Inr [core_alice, core_dan, core_bob]"
  by (simp add: core_apply_order_by_def split_age_desc SORT_ORDERS_def py_sorted_def
      core_key1_def float_sorted_def core_alice_def core_bob_def core_dan_def)

lemma main_sort_ties:
  "main_apply_order_by py0 [main_alice, main_bob, main_dan] ''age=desc'' =
     Inr [main_alice, main_dan, main_bob]"
  by (simp add: main_apply_order_by_def split_age_desc SORT_ORDERS_def py_sorted_def
      main_key1_def float_sorted_def main_alice_def main_bob_def main_dan_def py0_def dec_float_def
      is_digit_def)

theorem order_by_stable_witness:
  "split_spec ''age=desc'' = Inr (''age'', ''desc'')
   \<and> core_apply_order_by py0 [core_alice, core_bob, core_dan] ''age=desc'' =
       Inr [core_alice, core_dan, core_bob]
   \<and> filter (\<lambda>r. core_key1 ''age'' r = Num (Fin 30)) [core_alice, core_dan, core_bob] =
       filter (\<lambda>r. core_key1 ''age'' r = Num (Fin 30)) [core_alice, core_bob, core_dan]
   \<and> main_apply_order_by py0 [main_alice, main_bob, main_dan] ''age=desc'' =
       Inr [main_alice, main_dan, main_bob]
   \<and> filter (\<lambda>r. main_key1 py0 ''age'' r = Inr (Num (Fin 30))) [main_alice, main_dan, main_bob] =
       filter (\<lambda>r. main_key1 py0 ''age'' r = Inr (Num (Fin 30))) [main_alice, main_bob, main_dan]"
proof -
  have o: "''desc'' \<in> set (map fst SORT_ORDERS)" by (simp add: SORT_ORDERS_def)
  have cu: "list_all is_Num (map (core_key1 ''age'') [core_alice, core_bob, core_dan])"
    by (simp add: core_key1_def core_alice_def core_bob_def core_dan_def)
  have cn: "\<forall>r \<in> set [core_alice, core_bob, core_dan]. core_key1 ''age'' r \<noteq> Num NaN"
    by (simp add: core_key1_def core_alice_def core_bob_def core_dan_def)
  have mu: "\<forall>r \<in> set [main_alice, main_bob, main_dan]. \<exists>c. main_key1 py0 ''age'' r = Inr c"
    by (simp add: main_key1_def main_alice_def main_bob_def main_dan_def py0_def dec_float_def
        is_digit_def)
  have mn: "\<forall>r \<in> set [main_alice, main_bob, main_dan]. main_key1 py0 ''age'' r \<noteq> Inr (Num NaN)"
    by (simp add: main_key1_def main_alice_def main_bob_def main_dan_def py0_def dec_float_def
        is_digit_def)
  note t = order_by_stable[OF split_age_desc, where py=py0
      and data="[core_alice, core_bob, core_dan]" and mdata="[main_alice, main_bob, main_dan]"]
  from t o cn obtain out where out:
    "core_apply_order_by py0 [core_alice, core_bob, core_dan] ''age=desc'' = Inr out"
    "if list_all is_Num (map (core_key1 ''age'') [core_alice, core_bob, core_dan])
          \<or> list_all is_Text (map (core_key1 ''age'') [core_alice, core_bob, core_dan])
     then \<forall>k. filter (\<lambda>r. core_key1 ''age'' r = k) out =
               filter (\<lambda>r. core_key1 ''age'' r = k) [core_alice, core_bob, core_dan]
     else \<forall>k. filter (\<lambda>r. core_key2 py0 ''age'' r = k) out =
               filter (\<lambda>r. core_key2 py0 ''age'' r = k) [core_alice, core_bob, core_dan]"
    by blast
  from out(1) have oe: "out = [core_alice, core_dan, core_bob]" by (simp add: core_sort_ties)
  from out(2) cu
  have c: "\<forall>k. filter (\<lambda>r. core_key1 ''age'' r = k) out =
               filter (\<lambda>r. core_key1 ''age'' r = k) [core_alice, core_bob, core_dan]"
    by (simp del: filter.simps)
  from t mu mn main_sort_ties
  have m: "\<forall>c. filter (\<lambda>r. main_key1 py0 ''age'' r = Inr c) [main_alice, main_dan, main_bob] =
               filter (\<lambda>r. main_key1 py0 ''age'' r = Inr c) [main_alice, main_bob, main_dan]"
    by (simp del: filter.simps)
  show ?thesis using c m split_age_desc core_sort_ties main_sort_ties unfolding oe by blast
qed

text \<open>
  Claim C1. Both files sort a string column in descending direction by the reversed
  characters of the key: the names Bob, Alice, Eve come out as Bob, Alice, Eve, where
  the reverse of the ascending order Alice, Bob, Eve is Eve, Bob, Alice.
\<close>

theorem desc_on_strings_reverses_characters:
  "core_apply_order_by py0 [core_bob, core_alice, core_eve] ''name=desc'' =
     Inr [core_bob, core_alice, core_eve]
   \<and> main_apply_order_by py0 [main_bob, main_alice, main_eve] ''name=desc'' =
     Inr [main_bob, main_alice, main_eve]
   \<and> core_apply_order_by py0 [core_bob, core_alice, core_eve] ''name=asc'' =
     Inr [core_alice, core_bob, core_eve]
   \<and> main_apply_order_by py0 [main_bob, main_alice, main_eve] ''name=asc'' =
     Inr [main_alice, main_bob, main_eve]"
proof -
  have a: "core_apply_order_by py0 [core_bob, core_alice, core_eve] ''name=desc'' =
     Inr [core_bob, core_alice, core_eve]"
    by (simp add: core_apply_order_by_def split_name_desc SORT_ORDERS_def py_sorted_def
      core_key1_def float_sorted_def core_alice_def core_bob_def core_eve_def)
  have b: "main_apply_order_by py0 [main_bob, main_alice, main_eve] ''name=desc'' =
     Inr [main_bob, main_alice, main_eve]"
    by (simp add: main_apply_order_by_def split_name_desc SORT_ORDERS_def py_sorted_def
      main_key1_def main_key2_def float_sorted_def main_alice_def main_bob_def main_eve_def
      py0_def dec_float_def is_digit_def)
  have c: "core_apply_order_by py0 [core_bob, core_alice, core_eve] ''name=asc'' =
     Inr [core_alice, core_bob, core_eve]"
    by (simp add: core_apply_order_by_def split_name_asc SORT_ORDERS_def py_sorted_def
      core_key1_def float_sorted_def core_alice_def core_bob_def core_eve_def)
  have d: "main_apply_order_by py0 [main_bob, main_alice, main_eve] ''name=asc'' =
     Inr [main_alice, main_bob, main_eve]"
    by (simp add: main_apply_order_by_def split_name_asc SORT_ORDERS_def py_sorted_def
      main_key1_def main_key2_def float_sorted_def main_alice_def main_bob_def main_eve_def
      py0_def dec_float_def is_digit_def)
  show ?thesis using a b c d by simp
qed

end
